theory Spec2Isabelle
  imports Main
begin

section \<open>JavaScript values and errors\<close>

text \<open>
  The options of the constructor are JavaScript values. The model keeps the three shapes
  the source distinguishes: \<open>undefined\<close>, \<open>null\<close> and a string. Numbers, objects and
  other values passed as \<open>clientId\<close> or \<open>dataPath\<close> are outside the model.
\<close>

datatype jsval = Undefined | Null | Str string

text \<open>Truthiness as used by \<open>clientId && ...\<close> and \<open>dataPath || ...\<close>.\<close>

fun truthy :: "jsval \<Rightarrow> bool" where
  "truthy Undefined = False"
| "truthy Null = False"
| "truthy (Str s) = (s \<noteq> [])"

text \<open>String conversion as done by a template literal and by \<open>RegExp.prototype.test\<close>.\<close>

fun template :: "jsval \<Rightarrow> string" where
  "template Undefined = ''undefined''"
| "template Null = ''null''"
| "template (Str s) = s"

text \<open>
  Every \<open>throw\<close> and every rejected promise of the source is a value of this type.
  The first five are the errors the module raises itself; the others are raised by the
  file system, by the archiver, by the zip reader and by the remote store.
\<close>

datatype error =
    MissingOptionalDependencies
  | InvalidClientId
  | InvalidBackupSyncIntervalMs
  | StoreRequired
  | IncompatibleUserDataDir
  | ENOENT string
  | EISDIR string
  | ENOTDIR string
  | EEXIST string
  | ArchiverError string
  | InvalidZip string
  | StoreError string

section \<open>Optional dependencies\<close>

text \<open>
  The three module variables \<open>fs\<close>, \<open>AdmZip\<close> and \<open>archiver\<close>; a field is \<open>True\<close>
  when the variable holds the loaded package and \<open>False\<close> when it is \<open>undefined\<close>.
\<close>

record deps =
  dep_fs :: bool
  dep_AdmZip :: bool
  dep_archiver :: bool

text \<open>
  Lines 4 to 12 of both files: the three \<open>require\<close> calls run in one \<open>try\<close> block and the
  \<open>catch\<close> block resets all three variables. The arguments say whether each package can
  be loaded.
\<close>

definition require_optional :: "bool \<Rightarrow> bool \<Rightarrow> bool \<Rightarrow> deps" where
  "require_optional has_fs_extra has_adm_zip has_archiver =
     (if has_fs_extra \<and> has_adm_zip \<and> has_archiver
      then \<lparr>dep_fs = True, dep_AdmZip = True, dep_archiver = True\<rparr>
      else \<lparr>dep_fs = False, dep_AdmZip = False, dep_archiver = False\<rparr>)"

section \<open>Paths and the identifier pattern\<close>

text \<open>
  \<open>\w\<close> of a JavaScript regular expression without the \<open>u\<close> flag: ASCII letters, digits
  and the underscore.
\<close>

definition word_char :: "char \<Rightarrow> bool" where
  "word_char c =
     (let n = (of_char c :: nat)
      in (48 \<le> n \<and> n \<le> 57) \<or> (65 \<le> n \<and> n \<le> 90) \<or> (97 \<le> n \<and> n \<le> 122) \<or> n = 95)"

text \<open>\<open>/^[-_\w]+$/i.test(s)\<close>: one or more characters, each a hyphen, an underscore or \<open>\w\<close>.\<close>

definition idRegex_test :: "string \<Rightarrow> bool" where
  "idRegex_test s =
     (s \<noteq> [] \<and> list_all (\<lambda>c. c = CHR ''-'' \<or> c = CHR ''_'' \<or> word_char c) s)"

text \<open>
  \<open>path.join(a, b)\<close> on the arguments the source passes: \<open>a\<close> is a resolved directory
  path other than the root and \<open>b\<close> is a single name, so joining is concatenation with
  one separator.
\<close>

definition path_join :: "string \<Rightarrow> string \<Rightarrow> string" where
  "path_join a b = a @ ''/'' @ b"

section \<open>Construction\<close>

text \<open>The destructured argument of the constructor. A store is any truthy object.\<close>

record 's options =
  opt_clientId :: jsval
  opt_dataPath :: jsval
  opt_store :: "'s option"
  opt_backupSyncIntervalMs :: "int option"

text \<open>
  The fields the constructor of \<open>src/authStrategies/RemoteAuth.js\<close> assigns. The fields
  \<open>userDataDir\<close> and \<open>sessionName\<close> are assigned later, by \<open>beforeBrowserInitialized\<close>;
  the record of an initialised instance extends this one.
\<close>

record 's RemoteAuth_new =
  store :: 's
  clientId :: jsval
  backupSyncIntervalMs :: int
  dataPath :: string
  tempDir :: string
  requiredDirs :: "string list"

record 's RemoteAuth = "'s RemoteAuth_new" +
  userDataDir :: string
  sessionName :: string

text \<open>
  \<open>RemoteAuth.constructor\<close>, lines 27 to 46 of \<open>src/authStrategies/RemoteAuth.js\<close>.
  \<open>path.resolve\<close> depends on the working directory of the process and is a parameter.
\<close>

definition RemoteAuth_constructor ::
  "deps \<Rightarrow> (string \<Rightarrow> string) \<Rightarrow> 's options \<Rightarrow> error + 's RemoteAuth_new" where
  "RemoteAuth_constructor d path_resolve opts =
     (if (\<not> dep_fs d) \<and> (\<not> dep_AdmZip d) \<and> (\<not> dep_archiver d)
      then Inl MissingOptionalDependencies
      else if truthy (opt_clientId opts) \<and> \<not> idRegex_test (template (opt_clientId opts))
      then Inl InvalidClientId
      else
        (case opt_backupSyncIntervalMs opts of
           None \<Rightarrow> Inl InvalidBackupSyncIntervalMs
         | Some ms \<Rightarrow>
             if ms = 0 \<or> ms < 60000 then Inl InvalidBackupSyncIntervalMs
             else
               (case opt_store opts of
                  None \<Rightarrow> Inl StoreRequired
                | Some st \<Rightarrow>
                    (let dp = path_resolve
                                (if truthy (opt_dataPath opts) then template (opt_dataPath opts)
                                 else ''./.wwebjs_auth/'')
                     in Inr \<lparr>store = st,
                             clientId = opt_clientId opts,
                             backupSyncIntervalMs = ms,
                             dataPath = dp,
                             tempDir = dp @ ''/wwebjs_temp_session_'' @ template (opt_clientId opts),
                             requiredDirs = [''Default'', ''IndexedDB'', ''Local Storage'']\<rparr>))))"

text \<open>
  The constructor of the second copy of the class (\<open>unnamed/part_001\<close>, lines 22 to 44):
  it needs every dependency, replaces an absent or ill-formed identifier by \<open>default\<close>
  and assigns \<open>sessionName\<close> and \<open>userDataDir\<close> itself.
\<close>

definition RemoteAuth_constructor_part001 ::
  "deps \<Rightarrow> (string \<Rightarrow> string) \<Rightarrow> 's options \<Rightarrow> error + 's RemoteAuth" where
  "RemoteAuth_constructor_part001 d path_resolve opts =
     (if (\<not> dep_fs d) \<or> (\<not> dep_AdmZip d) \<or> (\<not> dep_archiver d)
      then Inl MissingOptionalDependencies
      else
        (let cid = (if truthy (opt_clientId opts) \<and> idRegex_test (template (opt_clientId opts))
                    then opt_clientId opts else Str ''default'')
         in case opt_backupSyncIntervalMs opts of
              None \<Rightarrow> Inl InvalidBackupSyncIntervalMs
            | Some ms \<Rightarrow>
                if ms = 0 \<or> ms < 60000 then Inl InvalidBackupSyncIntervalMs
                else
                  (case opt_store opts of
                     None \<Rightarrow> Inl StoreRequired
                   | Some st \<Rightarrow>
                       (let dp = path_resolve
                                   (if truthy (opt_dataPath opts) then template (opt_dataPath opts)
                                    else ''./.wwebjs_auth/'');
                            sn = ''RemoteAuth-'' @ template cid
                        in Inr \<lparr>store = st,
                                clientId = cid,
                                backupSyncIntervalMs = ms,
                                dataPath = dp,
                                tempDir = path_join dp (''wwebjs_temp_session_'' @ template cid),
                                requiredDirs = [''Default'', ''IndexedDB'', ''Local Storage''],
                                userDataDir = path_join dp sn,
                                sessionName = sn\<rparr>))))"

section \<open>The file system\<close>

text \<open>
  The part of the file system the class touches: a table from path to node, at most one
  entry per path. A directory holds the entries whose path continues its own after a
  separator. File contents are opaque byte strings. An operation fails exactly when the
  table says so (a missing path, a directory where a file is needed, a file where a
  directory is needed); permissions, disk space and the existence of parent directories
  are outside the model.
\<close>

datatype node = Dir | File string

type_synonym fs = "(string \<times> node) list"

definition fs_lookup :: "fs \<Rightarrow> string \<Rightarrow> node option" where
  "fs_lookup f p = map_of f p"

definition under :: "string \<Rightarrow> string \<Rightarrow> bool" where
  "under d p = (take (Suc (length d)) p = d @ ''/'')"

definition fs_write :: "string \<Rightarrow> node \<Rightarrow> fs \<Rightarrow> fs" where
  "fs_write p n f = (p, n) # filter (\<lambda>e. fst e \<noteq> p) f"

definition fs_remove :: "string \<Rightarrow> fs \<Rightarrow> fs" where
  "fs_remove p f = filter (\<lambda>e. fst e \<noteq> p) f"

definition fs_remove_tree :: "string \<Rightarrow> fs \<Rightarrow> fs" where
  "fs_remove_tree p f = filter (\<lambda>e. fst e \<noteq> p \<and> \<not> under p (fst e)) f"

text \<open>The entries of the tree rooted at \<open>src\<close>, re-rooted at \<open>dst\<close>.\<close>

definition fs_tree_at :: "string \<Rightarrow> string \<Rightarrow> fs \<Rightarrow> fs" where
  "fs_tree_at src dst f =
     map (\<lambda>e. (dst @ drop (length src) (fst e), snd e))
       (filter (\<lambda>e. fst e = src \<or> under src (fst e)) f)"

definition fs_write_all :: "fs \<Rightarrow> fs \<Rightarrow> fs" where
  "fs_write_all es f = fold (\<lambda>e g. fs_write (fst e) (snd e) g) es f"

text \<open>\<open>fs.promises.access(p)\<close>\<close>

definition fs_access :: "string \<Rightarrow> fs \<Rightarrow> error + unit" where
  "fs_access p f = (case fs_lookup f p of None \<Rightarrow> Inl (ENOENT p) | Some n \<Rightarrow> Inr ())"

text \<open>\<open>fs.promises.unlink(p)\<close>\<close>

definition fs_unlink :: "string \<Rightarrow> fs \<Rightarrow> (error + unit) \<times> fs" where
  "fs_unlink p f =
     (case fs_lookup f p of
        None \<Rightarrow> (Inl (ENOENT p), f)
      | Some Dir \<Rightarrow> (Inl (EISDIR p), f)
      | Some (File c) \<Rightarrow> (Inr (), fs_remove p f))"

text \<open>\<open>fs.promises.rm(p, {recursive: true, force: true})\<close>\<close>

definition fs_rm :: "string \<Rightarrow> fs \<Rightarrow> (error + unit) \<times> fs" where
  "fs_rm p f = (Inr (), fs_remove_tree p f)"

text \<open>\<open>fs.promises.mkdir(p, {recursive: true})\<close>\<close>

definition fs_mkdir :: "string \<Rightarrow> fs \<Rightarrow> (error + unit) \<times> fs" where
  "fs_mkdir p f =
     (case fs_lookup f p of
        None \<Rightarrow> (Inr (), fs_write p Dir f)
      | Some Dir \<Rightarrow> (Inr (), f)
      | Some (File c) \<Rightarrow> (Inl (EEXIST p), f))"

text \<open>\<open>fs.promises.readdir(p)\<close>: the names of the entries directly inside \<open>p\<close>.\<close>

definition fs_readdir :: "string \<Rightarrow> fs \<Rightarrow> error + string list" where
  "fs_readdir p f =
     (case fs_lookup f p of
        None \<Rightarrow> Inl (ENOENT p)
      | Some (File c) \<Rightarrow> Inl (ENOTDIR p)
      | Some Dir \<Rightarrow>
          Inr (filter (\<lambda>n. CHR ''/'' \<notin> set n)
                 (map (\<lambda>e. drop (Suc (length p)) (fst e)) (filter (\<lambda>e. under p (fst e)) f))))"

text \<open>\<open>fs.promises.lstat(p)\<close>; \<open>stats.isDirectory()\<close> is whether the node is \<open>Dir\<close>.\<close>

definition fs_lstat :: "string \<Rightarrow> fs \<Rightarrow> error + node" where
  "fs_lstat p f = (case fs_lookup f p of None \<Rightarrow> Inl (ENOENT p) | Some n \<Rightarrow> Inr n)"

text \<open>
  \<open>fs.promises.rename(a, b)\<close>: a file replaces a file; it cannot replace a directory.
  A directory moves with its tree to a free path.
\<close>

definition fs_rename :: "string \<Rightarrow> string \<Rightarrow> fs \<Rightarrow> (error + unit) \<times> fs" where
  "fs_rename a b f =
     (case fs_lookup f a of
        None \<Rightarrow> (Inl (ENOENT a), f)
      | Some (File c) \<Rightarrow>
          (case fs_lookup f b of
             Some Dir \<Rightarrow> (Inl (EISDIR b), f)
           | _ \<Rightarrow> (Inr (), fs_write b (File c) (fs_remove a f)))
      | Some Dir \<Rightarrow>
          (case fs_lookup f b of
             None \<Rightarrow> (Inr (), fs_write_all (fs_tree_at a b f) (fs_remove_tree a f))
           | Some n \<Rightarrow> (Inl (EEXIST b), f)))"

text \<open>
  \<open>fs.copy(src, dst)\<close> of fs-extra with its default options: a missing source is an
  error, an existing destination is merged into and overwritten, and a directory and a
  file cannot replace each other.
\<close>

definition fs_copy :: "string \<Rightarrow> string \<Rightarrow> fs \<Rightarrow> (error + unit) \<times> fs" where
  "fs_copy src dst f =
     (case fs_lookup f src of
        None \<Rightarrow> (Inl (ENOENT src), f)
      | Some (File c) \<Rightarrow>
          (case fs_lookup f dst of
             Some Dir \<Rightarrow> (Inl (EISDIR dst), f)
           | _ \<Rightarrow> (Inr (), fs_write dst (File c) f))
      | Some Dir \<Rightarrow>
          (case fs_lookup f dst of
             Some (File c) \<Rightarrow> (Inl (ENOTDIR dst), f)
           | _ \<Rightarrow> (Inr (), fs_write_all (fs_tree_at src dst f) f)))"

text \<open>
  \<open>fs.createWriteStream(p)\<close>: the file is created, or truncated when it exists. Opening
  a directory fails.
\<close>

definition fs_createWriteStream :: "string \<Rightarrow> fs \<Rightarrow> (error + unit) \<times> fs" where
  "fs_createWriteStream p f =
     (case fs_lookup f p of
        Some Dir \<Rightarrow> (Inl (EISDIR p), f)
      | _ \<Rightarrow> (Inr (), fs_write p (File []) f))"

section \<open>The remote store, the libraries and the world\<close>

text \<open>
  The remote store is an object the caller supplies; the class calls four methods on it,
  each keyed by the session name. The model takes them as functions over a state \<open>'r\<close>
  of the store's own. \<open>save\<close> reads the local file system, \<open>extract\<close> writes to it.
\<close>

record 'r remote_store =
  store_sessionExists :: "string \<Rightarrow> 'r \<Rightarrow> error + bool"
  store_save :: "string \<Rightarrow> string \<Rightarrow> fs \<Rightarrow> 'r \<Rightarrow> (error + unit) \<times> 'r"
  store_extract :: "string \<Rightarrow> string \<Rightarrow> 'r \<Rightarrow> fs \<Rightarrow> (error + unit) \<times> fs"
  store_delete :: "string \<Rightarrow> 'r \<Rightarrow> (error + unit) \<times> 'r"

text \<open>
  The two packages whose behaviour the class relies on. \<open>archiver_directory dir f\<close> is
  the outcome of \<open>archiver('zip').directory(dir, false)\<close> piped to the stream and
  finalised: the bytes written, or the error of its \<open>error\<close> event.
  \<open>AdmZip_extractAllTo zip target f\<close> is the outcome of
  \<open>new AdmZip(zip).extractAllToAsync(target, false, false, cb)\<close>.
\<close>

record env =
  archiver_directory :: "string \<Rightarrow> fs \<Rightarrow> error + string"
  AdmZip_extractAllTo :: "string \<Rightarrow> string \<Rightarrow> fs \<Rightarrow> (error + unit) \<times> fs"

datatype client_event = REMOTE_SESSION_SAVED

text \<open>What the class does to its surroundings, in the order it does it.\<close>

datatype event =
    Emit client_event
  | ConsoleError error
  | ConsoleWarn string
  | StoreSessionExists string
  | StoreSave string string
  | StoreExtract string string
  | StoreDelete string
  | FsUnlink string
  | FsRm string
  | FsMkdir string
  | FsRename string string
  | FsCopy string string
  | FsCreateWriteStream string
  | Delay nat
  | SetInterval int
  | ClearInterval
  | UnhandledRejection error

record 'r world =
  files :: fs
  remote :: 'r
  log :: "event list"
  backupSync :: "int option"

text \<open>A call of the file system, recorded in the log.\<close>

definition fs_call ::
  "event \<Rightarrow> (fs \<Rightarrow> (error + unit) \<times> fs) \<Rightarrow> 'r world \<Rightarrow> (error + unit) \<times> 'r world" where
  "fs_call ev op w =
     (case op (files w) of (r, f) \<Rightarrow> (r, w\<lparr>files := f, log := log w @ [ev]\<rparr>))"

text \<open>\<open>.catch(() => {})\<close>: the promise is fulfilled whatever the outcome.\<close>

definition catch_ignore :: "(error + unit) \<times> 'w \<Rightarrow> (error + unit) \<times> 'w" where
  "catch_ignore m = (Inr (), snd m)"

definition say :: "event \<Rightarrow> 'r world \<Rightarrow> 'r world" where
  "say ev w = w\<lparr>log := log w @ [ev]\<rparr>"

text \<open>
  What awaiting a backup gives: the promise is rejected with an error, it is fulfilled, or
  it never settles. The last happens when the write stream of the archive cannot be
  opened: the stream has no listener for its \<open>error\<close> event, \<open>reject\<close> is wired only to
  the archiver and to the \<open>rename\<close>, so nothing settles the promise and the process ends
  on the uncaught event.
\<close>

datatype outcome = Rejected error | Fulfilled | Unsettled

section \<open>The methods of \<open>src/authStrategies/RemoteAuth.js\<close>\<close>

text \<open>\<open>isValidPath\<close>, lines 235 to 242: the \<open>try\<close> block makes it return, never reject.\<close>

definition isValidPath :: "string \<Rightarrow> 'r world \<Rightarrow> bool" where
  "isValidPath p w = (case fs_access p (files w) of Inl e \<Rightarrow> False | Inr u \<Rightarrow> True)"

text \<open>
  \<open>deleteMetadata\<close>, lines 213 to 233. The inner loop over the listing of one directory:
  \<open>lstat\<close> is awaited bare, the two removals swallow their errors.
\<close>

fun deleteMetadata_elements ::
  "string list \<Rightarrow> string \<Rightarrow> string list \<Rightarrow> 'r world \<Rightarrow> (error + unit) \<times> 'r world" where
  "deleteMetadata_elements req dir [] w = (Inr (), w)"
| "deleteMetadata_elements req dir (element # rest) w =
     (if element \<notin> set req then
        (let dirElement = path_join dir element in
         case fs_lstat dirElement (files w) of
           Inl e \<Rightarrow> (Inl e, w)
         | Inr stats \<Rightarrow>
             (let w1 = (if stats = Dir
                        then snd (catch_ignore (fs_call (FsRm dirElement) (fs_rm dirElement) w))
                        else snd (catch_ignore (fs_call (FsUnlink dirElement) (fs_unlink dirElement) w)))
              in deleteMetadata_elements req dir rest w1))
      else deleteMetadata_elements req dir rest w)"

text \<open>The outer loop over \<open>sessionDirs\<close>: \<open>readdir\<close> is awaited bare.\<close>

fun deleteMetadata_dirs ::
  "string list \<Rightarrow> string list \<Rightarrow> 'r world \<Rightarrow> (error + unit) \<times> 'r world" where
  "deleteMetadata_dirs req [] w = (Inr (), w)"
| "deleteMetadata_dirs req (dir # dirs) w =
     (case fs_readdir dir (files w) of
        Inl e \<Rightarrow> (Inl e, w)
      | Inr sessionFiles \<Rightarrow>
          (case deleteMetadata_elements req dir sessionFiles w of
             (Inl e, w1) \<Rightarrow> (Inl e, w1)
           | (Inr u, w1) \<Rightarrow> deleteMetadata_dirs req dirs w1))"

definition deleteMetadata ::
  "'r remote_store RemoteAuth \<Rightarrow> 'r world \<Rightarrow> (error + unit) \<times> 'r world" where
  "deleteMetadata this w =
     deleteMetadata_dirs (requiredDirs this)
       [tempDir this, path_join (tempDir this) ''Default''] w"

text \<open>
  \<open>compressSession\<close>, lines 171 to 198, in its two parts. The first part, lines 172 to
  179: the write stream is opened, the session is copied to the staging directory (the
  error of the copy is swallowed) and \<open>deleteMetadata\<close> is awaited bare. A stream that
  cannot be opened leaves the call unsettled.
\<close>

definition compressSession_staging ::
  "'r remote_store RemoteAuth \<Rightarrow> 'r world \<Rightarrow> outcome \<times> 'r world" where
  "compressSession_staging this w =
     (let tempZipPath = sessionName this @ ''.zip.partial''
      in case fs_call (FsCreateWriteStream tempZipPath) (fs_createWriteStream tempZipPath) w of
           (Inl e, w1) \<Rightarrow> (Unsettled, w1)
         | (Inr u, w1) \<Rightarrow>
             (let w2 = snd (catch_ignore
                         (fs_call (FsCopy (userDataDir this) (tempDir this))
                            (fs_copy (userDataDir this) (tempDir this)) w1))
              in case deleteMetadata this w2 of
                   (Inl e, w3) \<Rightarrow> (Rejected e, w3)
                 | (Inr u, w3) \<Rightarrow> (Fulfilled, w3)))"

text \<open>
  The second part, the promise of lines 181 to 197 (lines 156 to 169 of the second copy):
  the archiver runs on the staging directory as it is now. Its \<open>error\<close> event rejects
  the promise. Otherwise the bytes are in the \<open>.partial\<close> file, the stream closes and
  the \<open>rename\<close> decides: its error rejects the promise, its success fulfils it.
\<close>

definition compressSession_promise ::
  "env \<Rightarrow> 'r remote_store RemoteAuth \<Rightarrow> 'r world \<Rightarrow> outcome \<times> 'r world" where
  "compressSession_promise E this w =
     (let tempZipPath = sessionName this @ ''.zip.partial'';
          finalZipPath = sessionName this @ ''.zip''
      in case archiver_directory E (tempDir this) (files w) of
           Inl err \<Rightarrow> (Rejected err, w)
         | Inr bytes \<Rightarrow>
             (case fs_call (FsRename tempZipPath finalZipPath)
                     (fs_rename tempZipPath finalZipPath)
                     (w\<lparr>files := fs_write tempZipPath (File bytes) (files w)\<rparr>) of
                (Inl err, w1) \<Rightarrow> (Rejected err, w1)
              | (Inr u, w1) \<Rightarrow> (Fulfilled, w1)))"

definition compressSession ::
  "env \<Rightarrow> 'r remote_store RemoteAuth \<Rightarrow> 'r world \<Rightarrow> outcome \<times> 'r world" where
  "compressSession E this w =
     (case compressSession_staging this w of
        (Fulfilled, w3) \<Rightarrow> compressSession_promise E this w3
      | (Rejected e, w3) \<Rightarrow> (Rejected e, w3)
      | (Unsettled, w3) \<Rightarrow> (Unsettled, w3))"

text \<open>
  The first statement of \<open>storeRemoteSession\<close>, lines 105 to 108 (lines 96 to 98 of the
  second copy): a leftover \<open>.partial\<close> file is unlinked, the error swallowed.
\<close>

definition deleteLeftoverPartial :: "string \<Rightarrow> 'r world \<Rightarrow> 'r world" where
  "deleteLeftoverPartial partialZipPath w =
     (if isValidPath partialZipPath w
      then snd (catch_ignore (fs_call (FsUnlink partialZipPath) (fs_unlink partialZipPath) w))
      else w)"

text \<open>
  \<open>storeRemoteSession\<close>, lines 101 to 136. The argument is \<open>None\<close> for a call without
  options and \<open>Some b\<close> for \<open>{emit: b}\<close>.
\<close>

definition storeRemoteSession ::
  "env \<Rightarrow> 'r remote_store RemoteAuth \<Rightarrow> bool option \<Rightarrow> 'r world \<Rightarrow> outcome \<times> 'r world" where
  "storeRemoteSession E this options w =
     (let finalZipPath = sessionName this @ ''.zip'';
          partialZipPath = sessionName this @ ''.zip.partial'';
          w1 = deleteLeftoverPartial partialZipPath w
      in case compressSession E this w1 of
           (Rejected e, w2) \<Rightarrow> (Rejected e, w2)
         | (Unsettled, w2) \<Rightarrow> (Unsettled, w2)
         | (Fulfilled, w2) \<Rightarrow>
             (let w3 = (if isValidPath finalZipPath w2 then
                          (case store_save (store this) (sessionName this) finalZipPath
                                  (files w2) (remote w2) of
                             (Inl error, r) \<Rightarrow>
                               say (ConsoleError error)
                                 (say (StoreSave (sessionName this) finalZipPath) (w2\<lparr>remote := r\<rparr>))
                           | (Inr u, r) \<Rightarrow>
                               say (StoreSave (sessionName this) finalZipPath) (w2\<lparr>remote := r\<rparr>))
                        else say (ConsoleWarn finalZipPath) w2);
                  w4 = snd (catch_ignore (fs_call (FsRm (tempDir this)) (fs_rm (tempDir this)) w3));
                  w5 = (if options = Some True then say (Emit REMOTE_SESSION_SAVED) w4 else w4)
              in (Fulfilled, w5)))"

text \<open>
  \<open>unCompressSession\<close>, lines 199 to 211: the extraction, then the \<open>unlink\<close> of the
  archive, awaited bare.
\<close>

definition unCompressSession ::
  "env \<Rightarrow> 'r remote_store RemoteAuth \<Rightarrow> string \<Rightarrow> 'r world \<Rightarrow> (error + unit) \<times> 'r world" where
  "unCompressSession E this compressedSessionPath w =
     (case AdmZip_extractAllTo E compressedSessionPath (userDataDir this) (files w) of
        (Inl err, f) \<Rightarrow> (Inl err, w\<lparr>files := f\<rparr>)
      | (Inr u, f) \<Rightarrow>
          fs_call (FsUnlink compressedSessionPath) (fs_unlink compressedSessionPath)
            (w\<lparr>files := f\<rparr>))"

text \<open>\<open>extractRemoteSession\<close>, lines 139 to 164.\<close>

definition extractRemoteSession ::
  "env \<Rightarrow> 'r remote_store RemoteAuth \<Rightarrow> 'r world \<Rightarrow> (error + unit) \<times> 'r world" where
  "extractRemoteSession E this w =
     (let compressedSessionPath = sessionName this @ ''.zip'';
          w0 = say (StoreSessionExists (sessionName this)) w
      in case store_sessionExists (store this) (sessionName this) (remote w0) of
           Inl e \<Rightarrow> (Inl e, w0)
         | Inr True \<Rightarrow>
             (let w1 = say (StoreExtract (sessionName this) compressedSessionPath) w0
              in case store_extract (store this) (sessionName this) compressedSessionPath
                        (remote w1) (files w1) of
                   (Inl e, f) \<Rightarrow> (Inl e, w1\<lparr>files := f\<rparr>)
                 | (Inr u, f) \<Rightarrow>
                     (let w2 = w1\<lparr>files := f\<rparr> in
                      if isValidPath compressedSessionPath w2 then
                        (case unCompressSession E this compressedSessionPath w2 of
                           (Inl error, w3) \<Rightarrow>
                             catch_ignore
                               (fs_call (FsUnlink compressedSessionPath)
                                  (fs_unlink compressedSessionPath)
                                  (say (ConsoleError error) w3))
                         | (Inr u, w3) \<Rightarrow> (Inr (), w3))
                      else (Inr (), say (ConsoleWarn compressedSessionPath) w2)))
         | Inr False \<Rightarrow> fs_call (FsMkdir (userDataDir this)) (fs_mkdir (userDataDir this)) w0)"

text \<open>\<open>deleteRemoteSession\<close>, lines 166 to 169.\<close>

definition deleteRemoteSession ::
  "'r remote_store RemoteAuth \<Rightarrow> 'r world \<Rightarrow> (error + unit) \<times> 'r world" where
  "deleteRemoteSession this w =
     (let w0 = say (StoreSessionExists (sessionName this)) w
      in case store_sessionExists (store this) (sessionName this) (remote w0) of
           Inl e \<Rightarrow> (Inl e, w0)
         | Inr True \<Rightarrow>
             (case store_delete (store this) (sessionName this) (remote w0) of
                (r, rem) \<Rightarrow> (r, say (StoreDelete (sessionName this)) (w0\<lparr>remote := rem\<rparr>)))
         | Inr False \<Rightarrow> (Inr (), w0))"

text \<open>
  \<open>beforeBrowserInitialized\<close>, lines 48 to 66. The second argument is
  \<open>puppeteerOpts.userDataDir\<close>; the result is the initialised instance with the
  \<open>userDataDir\<close> written back to the options.
\<close>

definition beforeBrowserInitialized ::
  "env \<Rightarrow> 'r remote_store RemoteAuth_new \<Rightarrow> jsval \<Rightarrow> 'r world \<Rightarrow>
     (error + ('r remote_store RemoteAuth \<times> string)) \<times> 'r world" where
  "beforeBrowserInitialized E new puppeteer_userDataDir w =
     (let sessionDirName = (if truthy (clientId new) then ''RemoteAuth-'' @ template (clientId new)
                            else ''RemoteAuth'');
          dirPath = path_join (dataPath new) sessionDirName
      in if truthy puppeteer_userDataDir \<and> puppeteer_userDataDir \<noteq> Str dirPath
         then (Inl IncompatibleUserDataDir, w)
         else
           (let this = RemoteAuth_new.extend new
                         (RemoteAuth.fields dirPath sessionDirName)
            in case extractRemoteSession E this w of
                 (Inl e, w1) \<Rightarrow> (Inl e, w1)
               | (Inr u, w1) \<Rightarrow> (Inr (this, dirPath), w1)))"

text \<open>
  \<open>afterAuthReady\<close>, lines 89 to 99. The timer is armed only when everything before it
  was fulfilled.
\<close>

definition afterAuthReady ::
  "env \<Rightarrow> 'r remote_store RemoteAuth \<Rightarrow> 'r world \<Rightarrow> outcome \<times> 'r world" where
  "afterAuthReady E this w =
     (let w0 = say (StoreSessionExists (sessionName this)) w
      in case store_sessionExists (store this) (sessionName this) (remote w0) of
           Inl e \<Rightarrow> (Rejected e, w0)
         | Inr sessionExists \<Rightarrow>
             (case (if \<not> sessionExists
                    then storeRemoteSession E this (Some True) (say (Delay 60000) w0)
                    else (Fulfilled, w0)) of
                (Rejected e, w1) \<Rightarrow> (Rejected e, w1)
              | (Unsettled, w1) \<Rightarrow> (Unsettled, w1)
              | (Fulfilled, w1) \<Rightarrow>
                  (Fulfilled, say (SetInterval (backupSyncIntervalMs this))
                                (w1\<lparr>backupSync := Some (backupSyncIntervalMs this)\<rparr>))))"

text \<open>
  The callback of \<open>setInterval\<close>, lines 96 to 98: a backup without options. Nothing
  awaits the callback, so a rejection is unhandled. A tick happens only while the timer
  is armed.
\<close>

definition backupSync_tick ::
  "env \<Rightarrow> 'r remote_store RemoteAuth \<Rightarrow> 'r world \<Rightarrow> 'r world" where
  "backupSync_tick E this w =
     (case backupSync w of
        None \<Rightarrow> w
      | Some ms \<Rightarrow>
          (case storeRemoteSession E this None w of
             (Rejected e, w1) \<Rightarrow> say (UnhandledRejection e) w1
           | (Fulfilled, w1) \<Rightarrow> w1
           | (Unsettled, w1) \<Rightarrow> w1))"

text \<open>\<open>destroy\<close>, lines 72 to 74.\<close>

definition destroy :: "'r remote_store RemoteAuth \<Rightarrow> 'r world \<Rightarrow> (error + unit) \<times> 'r world" where
  "destroy this w = (Inr (), say ClearInterval (w\<lparr>backupSync := None\<rparr>))"

text \<open>\<open>disconnect\<close>, lines 76 to 87, and \<open>logout\<close>, lines 68 to 70.\<close>

definition disconnect :: "'r remote_store RemoteAuth \<Rightarrow> 'r world \<Rightarrow> (error + unit) \<times> 'r world" where
  "disconnect this w =
     (case deleteRemoteSession this w of
        (Inl e, w1) \<Rightarrow> (Inl e, w1)
      | (Inr u, w1) \<Rightarrow>
          (let w2 = (if isValidPath (userDataDir this) w1
                     then snd (catch_ignore
                            (fs_call (FsRm (userDataDir this)) (fs_rm (userDataDir this)) w1))
                     else w1)
           in (Inr (), say ClearInterval (w2\<lparr>backupSync := None\<rparr>))))"

definition logout :: "'r remote_store RemoteAuth \<Rightarrow> 'r world \<Rightarrow> (error + unit) \<times> 'r world" where
  "logout this w = disconnect this w"

section \<open>The methods of the second copy, \<open>unnamed/part_001\<close>\<close>

text \<open>
  The second copy differs from the first in the constructor (above), in
  \<open>deleteMetadata\<close> and in \<open>unCompressSession\<close>; the methods that call these are
  repeated with the callee replaced.

  \<open>deleteMetadata\<close>, lines 184 to 205: a directory that is not there is skipped, a
  listing that fails is the empty listing, an entry whose \<open>lstat\<close> fails is skipped.
\<close>

fun deleteMetadata_elements_part001 ::
  "string list \<Rightarrow> string \<Rightarrow> string list \<Rightarrow> 'r world \<Rightarrow> (error + unit) \<times> 'r world" where
  "deleteMetadata_elements_part001 req dir [] w = (Inr (), w)"
| "deleteMetadata_elements_part001 req dir (element # rest) w =
     (if element \<notin> set req then
        (let dirElement = path_join dir element in
         case fs_lstat dirElement (files w) of
           Inl e \<Rightarrow> deleteMetadata_elements_part001 req dir rest w
         | Inr stats \<Rightarrow>
             (let w1 = (if stats = Dir
                        then snd (catch_ignore (fs_call (FsRm dirElement) (fs_rm dirElement) w))
                        else snd (catch_ignore (fs_call (FsUnlink dirElement) (fs_unlink dirElement) w)))
              in deleteMetadata_elements_part001 req dir rest w1))
      else deleteMetadata_elements_part001 req dir rest w)"

fun deleteMetadata_dirs_part001 ::
  "string list \<Rightarrow> string list \<Rightarrow> 'r world \<Rightarrow> (error + unit) \<times> 'r world" where
  "deleteMetadata_dirs_part001 req [] w = (Inr (), w)"
| "deleteMetadata_dirs_part001 req (dir # dirs) w =
     (if \<not> isValidPath dir w then deleteMetadata_dirs_part001 req dirs w
      else
        (let sessionFiles = (case fs_readdir dir (files w) of Inl e \<Rightarrow> [] | Inr names \<Rightarrow> names)
         in case deleteMetadata_elements_part001 req dir sessionFiles w of
              (Inl e, w1) \<Rightarrow> (Inl e, w1)
            | (Inr u, w1) \<Rightarrow> deleteMetadata_dirs_part001 req dirs w1))"

definition deleteMetadata_part001 ::
  "'r remote_store RemoteAuth \<Rightarrow> 'r world \<Rightarrow> (error + unit) \<times> 'r world" where
  "deleteMetadata_part001 this w =
     deleteMetadata_dirs_part001 (requiredDirs this)
       [tempDir this, path_join (tempDir this) ''Default''] w"

text \<open>
  \<open>compressSession\<close>, lines 147 to 170: the first part with the \<open>deleteMetadata\<close> of
  this copy, then the same promise.
\<close>

definition compressSession_staging_part001 ::
  "'r remote_store RemoteAuth \<Rightarrow> 'r world \<Rightarrow> outcome \<times> 'r world" where
  "compressSession_staging_part001 this w =
     (let tempZipPath = sessionName this @ ''.zip.partial''
      in case fs_call (FsCreateWriteStream tempZipPath) (fs_createWriteStream tempZipPath) w of
           (Inl e, w1) \<Rightarrow> (Unsettled, w1)
         | (Inr u, w1) \<Rightarrow>
             (let w2 = snd (catch_ignore
                         (fs_call (FsCopy (userDataDir this) (tempDir this))
                            (fs_copy (userDataDir this) (tempDir this)) w1))
              in case deleteMetadata_part001 this w2 of
                   (Inl e, w3) \<Rightarrow> (Rejected e, w3)
                 | (Inr u, w3) \<Rightarrow> (Fulfilled, w3)))"

definition compressSession_part001 ::
  "env \<Rightarrow> 'r remote_store RemoteAuth \<Rightarrow> 'r world \<Rightarrow> outcome \<times> 'r world" where
  "compressSession_part001 E this w =
     (case compressSession_staging_part001 this w of
        (Fulfilled, w3) \<Rightarrow> compressSession_promise E this w3
      | (Rejected e, w3) \<Rightarrow> (Rejected e, w3)
      | (Unsettled, w3) \<Rightarrow> (Unsettled, w3))"

text \<open>\<open>storeRemoteSession\<close>, lines 92 to 117.\<close>

definition storeRemoteSession_part001 ::
  "env \<Rightarrow> 'r remote_store RemoteAuth \<Rightarrow> bool option \<Rightarrow> 'r world \<Rightarrow> outcome \<times> 'r world" where
  "storeRemoteSession_part001 E this options w =
     (let finalZipPath = sessionName this @ ''.zip'';
          partialZipPath = sessionName this @ ''.zip.partial'';
          w1 = deleteLeftoverPartial partialZipPath w
      in case compressSession_part001 E this w1 of
           (Rejected e, w2) \<Rightarrow> (Rejected e, w2)
         | (Unsettled, w2) \<Rightarrow> (Unsettled, w2)
         | (Fulfilled, w2) \<Rightarrow>
             (let w3 = (if isValidPath finalZipPath w2 then
                          (case store_save (store this) (sessionName this) finalZipPath
                                  (files w2) (remote w2) of
                             (Inl error, r) \<Rightarrow>
                               say (ConsoleError error)
                                 (say (StoreSave (sessionName this) finalZipPath) (w2\<lparr>remote := r\<rparr>))
                           | (Inr u, r) \<Rightarrow>
                               say (StoreSave (sessionName this) finalZipPath) (w2\<lparr>remote := r\<rparr>))
                        else say (ConsoleWarn finalZipPath) w2);
                  w4 = snd (catch_ignore (fs_call (FsRm (tempDir this)) (fs_rm (tempDir this)) w3));
                  w5 = (if options = Some True then say (Emit REMOTE_SESSION_SAVED) w4 else w4)
              in (Fulfilled, w5)))"

text \<open>\<open>unCompressSession\<close>, lines 172 to 182: the \<open>unlink\<close> swallows its error.\<close>

definition unCompressSession_part001 ::
  "env \<Rightarrow> 'r remote_store RemoteAuth \<Rightarrow> string \<Rightarrow> 'r world \<Rightarrow> (error + unit) \<times> 'r world" where
  "unCompressSession_part001 E this compressedSessionPath w =
     (case AdmZip_extractAllTo E compressedSessionPath (userDataDir this) (files w) of
        (Inl err, f) \<Rightarrow> (Inl err, w\<lparr>files := f\<rparr>)
      | (Inr u, f) \<Rightarrow>
          catch_ignore
            (fs_call (FsUnlink compressedSessionPath) (fs_unlink compressedSessionPath)
               (w\<lparr>files := f\<rparr>)))"

text \<open>\<open>extractRemoteSession\<close>, lines 119 to 138.\<close>

definition extractRemoteSession_part001 ::
  "env \<Rightarrow> 'r remote_store RemoteAuth \<Rightarrow> 'r world \<Rightarrow> (error + unit) \<times> 'r world" where
  "extractRemoteSession_part001 E this w =
     (let compressedSessionPath = sessionName this @ ''.zip'';
          w0 = say (StoreSessionExists (sessionName this)) w
      in case store_sessionExists (store this) (sessionName this) (remote w0) of
           Inl e \<Rightarrow> (Inl e, w0)
         | Inr True \<Rightarrow>
             (let w1 = say (StoreExtract (sessionName this) compressedSessionPath) w0
              in case store_extract (store this) (sessionName this) compressedSessionPath
                        (remote w1) (files w1) of
                   (Inl e, f) \<Rightarrow> (Inl e, w1\<lparr>files := f\<rparr>)
                 | (Inr u, f) \<Rightarrow>
                     (let w2 = w1\<lparr>files := f\<rparr> in
                      if isValidPath compressedSessionPath w2 then
                        (case unCompressSession_part001 E this compressedSessionPath w2 of
                           (Inl error, w3) \<Rightarrow>
                             catch_ignore
                               (fs_call (FsUnlink compressedSessionPath)
                                  (fs_unlink compressedSessionPath)
                                  (say (ConsoleError error) w3))
                         | (Inr u, w3) \<Rightarrow> (Inr (), w3))
                      else (Inr (), say (ConsoleWarn compressedSessionPath) w2)))
         | Inr False \<Rightarrow> fs_call (FsMkdir (userDataDir this)) (fs_mkdir (userDataDir this)) w0)"

section \<open>Executions\<close>

text \<open>
  What can happen to an instance once the client is ready: \<open>afterAuthReady\<close> runs first,
  then timer ticks, \<open>destroy\<close> and \<open>logout\<close> in any order. Each backup meets the
  libraries in a state of their own, so each tick carries its \<open>env\<close>. A rejected call
  of \<open>destroy\<close> or \<open>logout\<close> leaves the world it reached. After an unsettled backup
  the process has ended; the model goes on, so its executions include those of the code.
\<close>

datatype action = Tick env | Destroy | Logout

fun perform :: "'r remote_store RemoteAuth \<Rightarrow> action \<Rightarrow> 'r world \<Rightarrow> 'r world" where
  "perform this (Tick E) w = backupSync_tick E this w"
| "perform this Destroy w = snd (destroy this w)"
| "perform this Logout w = snd (logout this w)"

definition run ::
  "env \<Rightarrow> 'r remote_store RemoteAuth \<Rightarrow> action list \<Rightarrow> 'r world \<Rightarrow> 'r world" where
  "run E this acts w = fold (perform this) acts (snd (afterAuthReady E this w))"

text \<open>The number of \<open>remote session saved\<close> notifications in a log.\<close>

definition saved_count :: "event list \<Rightarrow> nat" where
  "saved_count l = length (filter (\<lambda>ev. ev = Emit REMOTE_SESSION_SAVED) l)"

text \<open>The calls of \<open>store.save\<close> in a log, and what was written to the console.\<close>

definition saves :: "event list \<Rightarrow> event list" where
  "saves l = filter (\<lambda>ev. case ev of StoreSave s p \<Rightarrow> True | _ \<Rightarrow> False) l"

definition complaints :: "event list \<Rightarrow> event list" where
  "complaints l =
     filter (\<lambda>ev. case ev of ConsoleError e \<Rightarrow> True | ConsoleWarn m \<Rightarrow> True | _ \<Rightarrow> False) l"

text \<open>Logs that hold calls of the file system only.\<close>

definition fs_events :: "event list \<Rightarrow> bool" where
  "fs_events l =
     list_all (\<lambda>ev. case ev of FsUnlink p \<Rightarrow> True | FsRm p \<Rightarrow> True | FsCopy a b \<Rightarrow> True
                     | FsCreateWriteStream p \<Rightarrow> True | FsRename a b \<Rightarrow> True | _ \<Rightarrow> False) l"

section \<open>Stand-ins for the concrete scenarios\<close>

text \<open>
  A remote store kept in memory: one blob per session name, and a switch that makes
  \<open>save\<close> reject.
\<close>

record mem =
  blobs :: "(string \<times> string) list"
  save_rejects :: bool

definition mem_store :: "mem remote_store" where
  "mem_store =
     \<lparr>store_sessionExists = (\<lambda>s r. Inr (map_of (blobs r) s \<noteq> None)),
      store_save = (\<lambda>s p f r.
         if save_rejects r then (Inl (StoreError ''save''), r)
         else (case fs_lookup f p of
                 Some (File c) \<Rightarrow> (Inr (), r\<lparr>blobs := (s, c) # filter (\<lambda>b. fst b \<noteq> s) (blobs r)\<rparr>)
               | _ \<Rightarrow> (Inl (ENOENT p), r))),
      store_extract = (\<lambda>s p r f.
         case map_of (blobs r) s of
           None \<Rightarrow> (Inl (StoreError ''extract''), f)
         | Some c \<Rightarrow> (Inr (), fs_write p (File c) f)),
      store_delete = (\<lambda>s r. (Inr (), r\<lparr>blobs := filter (\<lambda>b. fst b \<noteq> s) (blobs r)\<rparr>))\<rparr>"

text \<open>
  Libraries that work: the archive starts with the zip signature, and a file that starts
  with it extracts to the target directory with one entry. A file that does not is
  refused before anything is written.
\<close>

definition libs_ok :: env where
  "libs_ok =
     \<lparr>archiver_directory = (\<lambda>dir f. Inr (''PK:'' @ dir)),
      AdmZip_extractAllTo = (\<lambda>zip target f.
         case fs_lookup f zip of
           Some (File c) \<Rightarrow>
             if take 2 c = ''PK''
             then (Inr (), fs_write (path_join target ''Default'') Dir (fs_write target Dir f))
             else (Inl (InvalidZip zip), f)
         | _ \<Rightarrow> (Inl (InvalidZip zip), f))\<rparr>"

text \<open>The same libraries with an archiver whose stream fails.\<close>

definition libs_archiver_error :: env where
  "libs_archiver_error =
     libs_ok\<lparr>archiver_directory := (\<lambda>dir f. Inl (ArchiverError ''stream''))\<rparr>"

text \<open>
  The same libraries with an archiver that cannot read one file: it fails on a tree that
  holds \<open>Default/IndexedDB/db\<close> and works on every other tree.
\<close>

definition libs_archiver_eacces :: env where
  "libs_archiver_eacces =
     libs_ok\<lparr>archiver_directory := (\<lambda>dir f.
        if fs_lookup f (dir @ ''/Default/IndexedDB/db'') = None then Inr (''PK:'' @ dir)
        else Inl (ArchiverError ''EACCES''))\<rparr>"

text \<open>An instance as the constructor and \<open>beforeBrowserInitialized\<close> leave it for client \<open>x\<close>.\<close>

definition this_x :: "mem remote_store RemoteAuth" where
  "this_x =
     \<lparr>store = mem_store,
      clientId = Str ''x'',
      backupSyncIntervalMs = 60000,
      dataPath = ''/data'',
      tempDir = ''/data/wwebjs_temp_session_x'',
      requiredDirs = [''Default'', ''IndexedDB'', ''Local Storage''],
      userDataDir = ''/data/RemoteAuth-x'',
      sessionName = ''RemoteAuth-x''\<rparr>"

text \<open>A profile directory as the browser leaves it, and worlds around it.\<close>

definition profile_x :: fs where
  "profile_x =
     [(''/data/RemoteAuth-x'', Dir),
      (''/data/RemoteAuth-x/Default'', Dir),
      (''/data/RemoteAuth-x/Default/Cache'', Dir),
      (''/data/RemoteAuth-x/Default/IndexedDB'', Dir),
      (''/data/RemoteAuth-x/Default/IndexedDB/db'', File ''keys''),
      (''/data/RemoteAuth-x/DevToolsActivePort'', File ''9222'')]"

definition world_of :: "fs \<Rightarrow> (string \<times> string) list \<Rightarrow> bool \<Rightarrow> mem world" where
  "world_of f bs rej =
     \<lparr>files = f, remote = \<lparr>blobs = bs, save_rejects = rej\<rparr>, log = [], backupSync = None\<rparr>"

section \<open>Construction: the identifier, the dependencies, the default names\<close>

text \<open>
  Claim C8, as the code has it. With the dependencies loaded, a store and an interval of
  at least 60000 ms: in \<open>src/authStrategies/RemoteAuth.js\<close> a supplied identifier that
  matches the pattern is accepted and kept, a non-empty identifier that does not match
  makes the constructor throw, and the empty string is falsy, so it passes the guard
  \<open>clientId && ...\<close> like an absent identifier. In the second copy the constructor never
  throws on the identifier: one that does not match is replaced by \<open>default\<close>.
\<close>

theorem C8_clientId_pattern:
  assumes "60000 \<le> ms"
  shows
   "(idRegex_test s \<longrightarrow>
       (\<exists>new. RemoteAuth_constructor (require_optional True True True) pr
                 \<lparr>opt_clientId = Str s, opt_dataPath = dp, opt_store = Some st,
                  opt_backupSyncIntervalMs = Some ms\<rparr> = Inr new \<and> clientId new = Str s)) \<and>
    (s \<noteq> [] \<and> \<not> idRegex_test s \<longrightarrow>
       RemoteAuth_constructor (require_optional True True True) pr
         \<lparr>opt_clientId = Str s, opt_dataPath = dp, opt_store = Some st,
          opt_backupSyncIntervalMs = Some ms\<rparr> = Inl InvalidClientId) \<and>
    (s = [] \<longrightarrow>
       (\<exists>new. RemoteAuth_constructor (require_optional True True True) pr
                 \<lparr>opt_clientId = Str s, opt_dataPath = dp, opt_store = Some st,
                  opt_backupSyncIntervalMs = Some ms\<rparr> = Inr new)) \<and>
    (\<exists>this. RemoteAuth_constructor_part001 (require_optional True True True) pr
                 \<lparr>opt_clientId = Str s, opt_dataPath = dp, opt_store = Some st,
                  opt_backupSyncIntervalMs = Some ms\<rparr> = Inr this \<and>
             clientId this = (if idRegex_test s then Str s else Str ''default''))"
  using assms
  by (auto simp: RemoteAuth_constructor_def RemoteAuth_constructor_part001_def require_optional_def
        idRegex_test_def Let_def)

text \<open>The theorem of C8 at a matching and at a non-matching identifier.\<close>

theorem C8_clientId_pattern_witness:
  "idRegex_test ''my-client_01'' \<and>
   (\<exists>new. RemoteAuth_constructor (require_optional True True True) id
                 \<lparr>opt_clientId = Str ''my-client_01'', opt_dataPath = Undefined, opt_store = Some (),
                  opt_backupSyncIntervalMs = Some 60000\<rparr> = Inr new \<and> clientId new = Str ''my-client_01'') \<and>
   \<not> idRegex_test ''a/b'' \<and>
   RemoteAuth_constructor (require_optional True True True) id
         \<lparr>opt_clientId = Str ''a/b'', opt_dataPath = Undefined, opt_store = Some (),
          opt_backupSyncIntervalMs = Some 60000\<rparr> = Inl InvalidClientId"
proof -
  have ok: "idRegex_test ''my-client_01''" and bad: "\<not> idRegex_test ''a/b''"
    by (simp_all add: idRegex_test_def word_char_def)
  have ms: "(60000::int) \<le> 60000" by simp
  from C8_clientId_pattern [OF ms, of "''my-client_01''" id Undefined "()"] ok
       C8_clientId_pattern [OF ms, of "''a/b''" id Undefined "()"] bad
  show ?thesis by simp
qed

text \<open>
  Claim C8 as stated fails: the empty string does not match the pattern and the
  constructor of \<open>src/authStrategies/RemoteAuth.js\<close> returns an instance for it; the
  identifier \<open>a b\<close> does not match and the constructor of the second copy returns an
  instance named \<open>default\<close>.
\<close>

theorem C8_counterexample:
  "\<not> idRegex_test '''' \<and>
   RemoteAuth_constructor (require_optional True True True) id
     \<lparr>opt_clientId = Str '''', opt_dataPath = Str ''/data'', opt_store = Some (),
      opt_backupSyncIntervalMs = Some 60000\<rparr>
   = Inr \<lparr>store = (), clientId = Str '''', backupSyncIntervalMs = 60000, dataPath = ''/data'',
          tempDir = ''/data/wwebjs_temp_session_'',
          requiredDirs = [''Default'', ''IndexedDB'', ''Local Storage'']\<rparr> \<and>
   \<not> idRegex_test ''a b'' \<and>
   RemoteAuth_constructor_part001 (require_optional True True True) id
     \<lparr>opt_clientId = Str ''a b'', opt_dataPath = Str ''/data'', opt_store = Some (),
      opt_backupSyncIntervalMs = Some 60000\<rparr>
   = Inr \<lparr>store = (), clientId = Str ''default'', backupSyncIntervalMs = 60000, dataPath = ''/data'',
          tempDir = ''/data/wwebjs_temp_session_default'',
          requiredDirs = [''Default'', ''IndexedDB'', ''Local Storage''],
          userDataDir = ''/data/RemoteAuth-default'', sessionName = ''RemoteAuth-default''\<rparr>"
  by (simp add: RemoteAuth_constructor_def RemoteAuth_constructor_part001_def require_optional_def
        idRegex_test_def word_char_def path_join_def Let_def)

text \<open>
  Claim C9: when any of the three packages cannot be loaded, the \<open>catch\<close> block leaves
  all three variables undefined and both constructors throw the dependency error, before
  looking at any option. The check is the first statement of the constructor, so an
  instance exists only when all three packages were loaded.
\<close>

theorem C9_missing_dependency_fails_construction:
  "(\<not> (a \<and> b \<and> c) \<longrightarrow>
      RemoteAuth_constructor (require_optional a b c) pr opts = Inl MissingOptionalDependencies \<and>
      RemoteAuth_constructor_part001 (require_optional a b c) pr opts = Inl MissingOptionalDependencies) \<and>
   (\<forall>new. RemoteAuth_constructor (require_optional a b c) pr opts = Inr new \<longrightarrow> a \<and> b \<and> c) \<and>
   (\<forall>this. RemoteAuth_constructor_part001 (require_optional a b c) pr opts = Inr this \<longrightarrow> a \<and> b \<and> c)"
  by (auto simp: RemoteAuth_constructor_def RemoteAuth_constructor_part001_def require_optional_def)

text \<open>The theorem of C9 with \<open>adm-zip\<close> missing.\<close>

theorem C9_missing_dependency_witness:
  "RemoteAuth_constructor (require_optional True False True) id
     \<lparr>opt_clientId = Str ''x'', opt_dataPath = Undefined, opt_store = Some (),
      opt_backupSyncIntervalMs = Some 60000\<rparr> = Inl MissingOptionalDependencies \<and>
   RemoteAuth_constructor_part001 (require_optional True False True) id
     \<lparr>opt_clientId = Str ''x'', opt_dataPath = Undefined, opt_store = Some (),
      opt_backupSyncIntervalMs = Some 60000\<rparr> = Inl MissingOptionalDependencies"
  using C9_missing_dependency_fails_construction [of True False True id
     "\<lparr>opt_clientId = Str ''x'', opt_dataPath = Undefined, opt_store = Some (),
      opt_backupSyncIntervalMs = Some 60000\<rparr>"]
  by simp

text \<open>Every path through \<open>extractRemoteSession\<close> starts by asking the store.\<close>

lemma extractRemoteSession_log:
  "\<exists>l. log (snd (extractRemoteSession E this w)) = log w @ StoreSessionExists (sessionName this) # l"
  by (auto simp: extractRemoteSession_def unCompressSession_def fs_call_def say_def catch_ignore_def
        Let_def split: sum.splits prod.splits bool.splits)

text \<open>
  Claim C10: without a client identifier the constructor of
  \<open>src/authStrategies/RemoteAuth.js\<close> succeeds and the staging directory is
  \<open><dataPath>/wwebjs_temp_session_undefined\<close>; \<open>beforeBrowserInitialized\<close> then names
  the session \<open>RemoteAuth\<close>, puts the working directory at \<open><dataPath>/RemoteAuth\<close>
  and asks the store for the key \<open>RemoteAuth\<close>.
\<close>

theorem C10_absent_clientId:
  assumes "60000 \<le> ms"
  shows
   "\<exists>new. RemoteAuth_constructor (require_optional True True True) pr
             \<lparr>opt_clientId = Undefined, opt_dataPath = dp, opt_store = Some st,
              opt_backupSyncIntervalMs = Some ms\<rparr> = Inr new \<and>
          tempDir new = dataPath new @ ''/wwebjs_temp_session_undefined'' \<and>
          (\<forall>E pud w this d w'.
              beforeBrowserInitialized E new pud w = (Inr (this, d), w') \<longrightarrow>
                sessionName this = ''RemoteAuth'' \<and>
                userDataDir this = path_join (dataPath new) ''RemoteAuth'' \<and>
                tempDir this = dataPath new @ ''/wwebjs_temp_session_undefined'' \<and>
                take (Suc (length (log w))) (log w') = log w @ [StoreSessionExists ''RemoteAuth''])"
proof -
  let ?new = "\<lparr>store = st, clientId = Undefined, backupSyncIntervalMs = ms,
               dataPath = pr (if truthy dp then template dp else ''./.wwebjs_auth/''),
               tempDir = pr (if truthy dp then template dp else ''./.wwebjs_auth/'')
                           @ ''/wwebjs_temp_session_undefined'',
               requiredDirs = [''Default'', ''IndexedDB'', ''Local Storage'']\<rparr>"
  have c: "RemoteAuth_constructor (require_optional True True True) pr
             \<lparr>opt_clientId = Undefined, opt_dataPath = dp, opt_store = Some st,
              opt_backupSyncIntervalMs = Some ms\<rparr> = Inr ?new"
    using assms by (simp add: RemoteAuth_constructor_def require_optional_def Let_def)
  have b: "sessionName this = ''RemoteAuth'' \<and>
           userDataDir this = path_join (dataPath ?new) ''RemoteAuth'' \<and>
           tempDir this = dataPath ?new @ ''/wwebjs_temp_session_undefined'' \<and>
           take (Suc (length (log w))) (log w') = log w @ [StoreSessionExists ''RemoteAuth'']"
    if h: "beforeBrowserInitialized E ?new pud w = (Inr (this, d), w')" for E pud w this d w'
  proof -
    let ?T = "RemoteAuth_new.extend ?new
                   (RemoteAuth.fields (path_join (dataPath ?new) ''RemoteAuth'') ''RemoteAuth'')"
    from h have t: "this = ?T" and w': "w' = snd (extractRemoteSession E ?T w)"
      by (auto simp: beforeBrowserInitialized_def Let_def split: if_splits prod.splits sum.splits)
    have sn: "sessionName ?T = ''RemoteAuth''"
      by (simp add: RemoteAuth_new.extend_def RemoteAuth.fields_def RemoteAuth_new.defs RemoteAuth.defs)
    obtain l where "log w' = log w @ StoreSessionExists ''RemoteAuth'' # l"
      using extractRemoteSession_log [of E ?T w] w' sn by auto
    then show ?thesis using t 
      by (simp add: RemoteAuth_new.extend_def RemoteAuth.fields_def RemoteAuth_new.defs RemoteAuth.defs)
  qed
  show ?thesis
  proof (intro exI [of _ ?new] conjI allI impI)
    show "RemoteAuth_constructor (require_optional True True True) pr
             \<lparr>opt_clientId = Undefined, opt_dataPath = dp, opt_store = Some st,
              opt_backupSyncIntervalMs = Some ms\<rparr> = Inr ?new"
      by (rule c)
    show "tempDir ?new = dataPath ?new @ ''/wwebjs_temp_session_undefined''"
      by simp
  qed (use b in blast)+
qed

text \<open>The theorem of C10 on a fresh data directory with an empty store.\<close>

theorem C10_absent_clientId_witness:
  "\<exists>new. RemoteAuth_constructor (require_optional True True True) (\<lambda>p. ''/srv/.wwebjs_auth'')
             \<lparr>opt_clientId = Undefined, opt_dataPath = Undefined, opt_store = Some mem_store,
              opt_backupSyncIntervalMs = Some 60000\<rparr> = Inr new \<and>
          tempDir new = ''/srv/.wwebjs_auth/wwebjs_temp_session_undefined'' \<and>
          fst (beforeBrowserInitialized libs_ok new Undefined (world_of [] [] False)) =
            Inr (RemoteAuth_new.extend new
                   (RemoteAuth.fields ''/srv/.wwebjs_auth/RemoteAuth'' ''RemoteAuth''),
                 ''/srv/.wwebjs_auth/RemoteAuth'')"
proof -
  have ms: "(60000::int) \<le> 60000" by simp
  obtain new where
    c: "RemoteAuth_constructor (require_optional True True True) (\<lambda>p. ''/srv/.wwebjs_auth'')
             \<lparr>opt_clientId = Undefined, opt_dataPath = Undefined, opt_store = Some mem_store,
              opt_backupSyncIntervalMs = Some 60000\<rparr> = Inr new"
    and t: "tempDir new = dataPath new @ ''/wwebjs_temp_session_undefined''"
    using C10_absent_clientId [OF ms, of "\<lambda>p. ''/srv/.wwebjs_auth''" Undefined mem_store] by blast
  from c have n: "new = \<lparr>store = mem_store, clientId = Undefined, backupSyncIntervalMs = 60000,
               dataPath = ''/srv/.wwebjs_auth'',
               tempDir = ''/srv/.wwebjs_auth/wwebjs_temp_session_undefined'',
               requiredDirs = [''Default'', ''IndexedDB'', ''Local Storage'']\<rparr>"
    by (simp add: RemoteAuth_constructor_def require_optional_def Let_def)
  have "fst (beforeBrowserInitialized libs_ok new Undefined (world_of [] [] False)) =
            Inr (RemoteAuth_new.extend new
                   (RemoteAuth.fields ''/srv/.wwebjs_auth/RemoteAuth'' ''RemoteAuth''),
                 ''/srv/.wwebjs_auth/RemoteAuth'')"
    unfolding n
    by (simp add: beforeBrowserInitialized_def extractRemoteSession_def world_of_def mem_store_def
          say_def fs_call_def fs_mkdir_def fs_lookup_def fs_write_def path_join_def Let_def
          RemoteAuth_new.extend_def RemoteAuth.fields_def RemoteAuth_new.defs RemoteAuth.defs)
  with c t n show ?thesis by auto
qed

section \<open>What the file system calls and the backup steps leave alone\<close>

lemma lookup_remove: "fs_lookup (fs_remove p f) q = (if q = p then None else fs_lookup f q)"
  by (induction f) (auto simp: fs_lookup_def fs_remove_def)

lemma lookup_remove_tree:
  "fs_lookup (fs_remove_tree p f) q = (if q = p \<or> under p q then None else fs_lookup f q)"
  by (induction f) (auto simp: fs_lookup_def fs_remove_tree_def)

lemma lookup_write: "fs_lookup (fs_write p n f) q = (if q = p then Some n else fs_lookup f q)"
  by (induction f) (auto simp: fs_lookup_def fs_write_def)

lemma lookup_write_all:
  "q \<notin> fst ` set es \<Longrightarrow> fs_lookup (fs_write_all es f) q = fs_lookup f q"
  unfolding fs_write_all_def
  by (induction es arbitrary: f) (auto simp: lookup_write)

lemma under_iff: "under d p \<longleftrightarrow> (\<exists>r. p = d @ CHR ''/'' # r)"
proof
  assume "under d p"
  then have "p = (d @ ''/'') @ drop (Suc (length d)) p"
    unfolding under_def by (metis append_take_drop_id)
  then show "\<exists>r. p = d @ CHR ''/'' # r" by auto
next
  assume "\<exists>r. p = d @ CHR ''/'' # r"
  then show "under d p" by (auto simp: under_def)
qed

lemma tree_at_keys: "q \<in> fst ` set (fs_tree_at src dst f) \<Longrightarrow> q = dst \<or> under dst q"
  by (auto simp: fs_tree_at_def under_iff)

lemma under_join: "under (path_join d x) p \<Longrightarrow> under d p"
  by (auto simp: under_iff path_join_def)

lemma join_under: "under d (path_join d x)"
  by (auto simp: under_iff path_join_def)


lemma fs_call_simps:
  "fst (fs_call ev op w) = fst (op (files w))"
  "files (snd (fs_call ev op w)) = snd (op (files w))"
  "remote (snd (fs_call ev op w)) = remote w"
  "backupSync (snd (fs_call ev op w)) = backupSync w"
  "log (snd (fs_call ev op w)) = log w @ [ev]"
  by (simp_all add: fs_call_def split: prod.splits)

lemma catch_ignore_simps: "fst (catch_ignore m) = Inr ()" "snd (catch_ignore m) = snd m"
  by (simp_all add: catch_ignore_def)

lemma say_simps:
  "files (say ev w) = files w" "remote (say ev w) = remote w"
  "backupSync (say ev w) = backupSync w" "log (say ev w) = log w @ [ev]"
  by (simp_all add: say_def)

lemma fs_events_simps:
  "fs_events []"
  "fs_events (l @ m) = (fs_events l \<and> fs_events m)"
  "fs_events [FsUnlink p]" "fs_events [FsRm p]" "fs_events [FsCopy a b]"
  "fs_events [FsCreateWriteStream p]" "fs_events [FsRename a b]"
  by (simp_all add: fs_events_def)

lemma fs_events_counts:
  assumes "fs_events l"
  shows "saved_count (a @ l) = saved_count a" "saves (a @ l) = saves a"
    "complaints (a @ l) = complaints a"
  using assms
  by (induction l)
     (auto simp: fs_events_def saved_count_def saves_def complaints_def split: event.splits)

lemma fs_rm_lookup:
  "fs_lookup (snd (fs_rm p f)) q = (if q = p \<or> under p q then None else fs_lookup f q)"
  by (simp add: fs_rm_def lookup_remove_tree)

lemma fs_unlink_lookup:
  "fs_lookup (snd (fs_unlink p f)) q =
     (if q = p \<and> (\<exists>c. fs_lookup f p = Some (File c)) then None else fs_lookup f q)"
  by (auto simp: fs_unlink_def lookup_remove split: option.splits node.splits)

lemma elements_frame:
  "remote (snd (deleteMetadata_elements req d xs w)) = remote w \<and>
   backupSync (snd (deleteMetadata_elements req d xs w)) = backupSync w \<and>
   (\<exists>l. log (snd (deleteMetadata_elements req d xs w)) = log w @ l \<and> fs_events l)"
proof (induction xs arbitrary: w)
  case Nil
  show ?case by (simp add: fs_events_simps)
next
  case (Cons x xs)
  show ?case
  proof (cases "x \<in> set req")
    case True
    then show ?thesis using Cons.IH [of w] by simp
  next
    case False
    show ?thesis
    proof (cases "fs_lstat (path_join d x) (files w)")
      case (Inl e)
      then show ?thesis using False by (simp add: fs_events_simps)
    next
      case (Inr stats)
      let ?w1 = "if stats = Dir
                 then snd (catch_ignore (fs_call (FsRm (path_join d x)) (fs_rm (path_join d x)) w))
                 else snd (catch_ignore (fs_call (FsUnlink (path_join d x)) (fs_unlink (path_join d x)) w))"
      have eq: "deleteMetadata_elements req d (x # xs) w = deleteMetadata_elements req d xs ?w1"
        using False Inr by (simp add: Let_def)
      obtain l where l: "log (snd (deleteMetadata_elements req d xs ?w1)) = log ?w1 @ l" "fs_events l"
        using Cons.IH [of ?w1] by blast
      have "\<exists>m. log ?w1 = log w @ m \<and> fs_events m"
        by (simp add: catch_ignore_simps fs_call_simps fs_events_simps)
      then obtain m where m: "log ?w1 = log w @ m" "fs_events m" by blast
      have "log (snd (deleteMetadata_elements req d (x # xs) w)) = log w @ (m @ l)"
        using eq l m by simp
      moreover have "fs_events (m @ l)" using l m by (simp add: fs_events_simps)
      moreover have "remote (snd (deleteMetadata_elements req d (x # xs) w)) = remote w"
        using eq Cons.IH [of ?w1] by (simp add: catch_ignore_simps fs_call_simps)
      moreover have "backupSync (snd (deleteMetadata_elements req d (x # xs) w)) = backupSync w"
        using eq Cons.IH [of ?w1] by (simp add: catch_ignore_simps fs_call_simps)
      ultimately show ?thesis by blast
    qed
  qed
qed

lemma elements_lookup:
  "(\<not> under d p \<longrightarrow>
      fs_lookup (files (snd (deleteMetadata_elements req d xs w))) p = fs_lookup (files w) p) \<and>
   (fs_lookup (files w) p = None \<longrightarrow>
      fs_lookup (files (snd (deleteMetadata_elements req d xs w))) p = None)"
proof (induction xs arbitrary: w)
  case Nil
  show ?case by simp
next
  case (Cons x xs)
  show ?case
  proof (cases "x \<in> set req")
    case True
    then show ?thesis using Cons.IH [of w] by simp
  next
    case False
    show ?thesis
    proof (cases "fs_lstat (path_join d x) (files w)")
      case (Inl e)
      then show ?thesis using False by simp
    next
      case (Inr stats)
      let ?w1 = "if stats = Dir
                 then snd (catch_ignore (fs_call (FsRm (path_join d x)) (fs_rm (path_join d x)) w))
                 else snd (catch_ignore (fs_call (FsUnlink (path_join d x)) (fs_unlink (path_join d x)) w))"
      have eq: "deleteMetadata_elements req d (x # xs) w = deleteMetadata_elements req d xs ?w1"
        using False Inr by (simp add: Let_def)
      have a: "\<not> under d p \<Longrightarrow> fs_lookup (files ?w1) p = fs_lookup (files w) p"
        using under_join [of d x p] join_under [of d x]
        by (auto simp: catch_ignore_simps fs_call_simps fs_rm_lookup fs_unlink_lookup)
      have b: "fs_lookup (files w) p = None \<Longrightarrow> fs_lookup (files ?w1) p = None"
        by (auto simp: catch_ignore_simps fs_call_simps fs_rm_lookup fs_unlink_lookup)
      show ?thesis using eq Cons.IH [of ?w1] a b by simp
    qed
  qed
qed


lemma dirs_frame:
  "remote (snd (deleteMetadata_dirs req ds w)) = remote w \<and>
   backupSync (snd (deleteMetadata_dirs req ds w)) = backupSync w \<and>
   (\<exists>l. log (snd (deleteMetadata_dirs req ds w)) = log w @ l \<and> fs_events l)"
proof (induction ds arbitrary: w)
  case Nil
  show ?case by (simp add: fs_events_simps)
next
  case (Cons d ds)
  show ?case
  proof (cases "fs_readdir d (files w)")
    case (Inl e)
    then show ?thesis by (simp add: fs_events_simps)
  next
    case (Inr names)
    obtain r w1 where e: "deleteMetadata_elements req d names w = (r, w1)"
      by (cases "deleteMetadata_elements req d names w")
    have f1: "remote w1 = remote w" "backupSync w1 = backupSync w"
      and "\<exists>l. log w1 = log w @ l \<and> fs_events l"
      using elements_frame [of req d names w] e by simp_all
    then obtain l where l: "log w1 = log w @ l" "fs_events l" by blast
    show ?thesis
    proof (cases r)
      case (Inl err)
      then show ?thesis using Inr e f1 l by auto
    next
      case (Inr u)
      obtain m where m: "log (snd (deleteMetadata_dirs req ds w1)) = log w1 @ m" "fs_events m"
        using Cons.IH [of w1] by blast
      have eq: "deleteMetadata_dirs req (d # ds) w = deleteMetadata_dirs req ds w1"
        using \<open>fs_readdir d (files w) = Inr names\<close> e Inr by simp
      have "log (snd (deleteMetadata_dirs req (d # ds) w)) = log w @ (l @ m)"
        using eq l m by simp
      moreover have "fs_events (l @ m)" using l m by (simp add: fs_events_simps)
      ultimately show ?thesis using eq Cons.IH [of w1] f1 by auto
    qed
  qed
qed

lemma dirs_lookup_None:
  "fs_lookup (files w) p = None \<Longrightarrow> fs_lookup (files (snd (deleteMetadata_dirs req ds w))) p = None"
proof (induction ds arbitrary: w)
  case Nil
  then show ?case by simp
next
  case (Cons d ds)
  show ?case
  proof (cases "fs_readdir d (files w)")
    case (Inl e)
    then show ?thesis using Cons.prems by simp
  next
    case (Inr names)
    obtain r w1 where e: "deleteMetadata_elements req d names w = (r, w1)"
      by (cases "deleteMetadata_elements req d names w")
    have n: "fs_lookup (files w1) p = None"
      using elements_lookup [of d p req names w] e Cons.prems by simp
    show ?thesis using Inr e n Cons.IH [of w1] by (cases r) simp_all
  qed
qed

lemma deleteMetadata_lookup_outside:
  "\<not> under (tempDir this) p \<Longrightarrow>
     fs_lookup (files (snd (deleteMetadata this w))) p = fs_lookup (files w) p"
proof -
  assume out: "\<not> under (tempDir this) p"
  let ?t = "tempDir this"
  let ?d = "path_join ?t ''Default''"
  have out2: "\<not> under ?d p" using out under_join by blast
  show ?thesis
  proof (cases "fs_readdir ?t (files w)")
    case (Inl e)
    then show ?thesis by (simp add: deleteMetadata_def)
  next
    case (Inr names)
    obtain r w1 where e: "deleteMetadata_elements (requiredDirs this) ?t names w = (r, w1)"
      by (cases "deleteMetadata_elements (requiredDirs this) ?t names w")
    have l1: "fs_lookup (files w1) p = fs_lookup (files w) p"
      using elements_lookup [of ?t p "requiredDirs this" names w] e out by simp
    show ?thesis
    proof (cases r)
      case (Inl err)
      then show ?thesis using \<open>fs_readdir ?t (files w) = Inr names\<close> e l1
        by (simp add: deleteMetadata_def)
    next
      case u: (Inr u)
      show ?thesis
      proof (cases "fs_readdir ?d (files w1)")
        case (Inl e2)
        then show ?thesis using Inr e u l1 by (simp add: deleteMetadata_def)
      next
        case n2: (Inr names2)
        obtain r2 w2 where e2: "deleteMetadata_elements (requiredDirs this) ?d names2 w1 = (r2, w2)"
          by (cases "deleteMetadata_elements (requiredDirs this) ?d names2 w1")
        have l2: "fs_lookup (files w2) p = fs_lookup (files w1) p"
          using elements_lookup [of ?d p "requiredDirs this" names2 w1] e2 out2 by simp
        show ?thesis using Inr e u n2 e2 l1 l2
          by (cases r2) (simp_all add: deleteMetadata_def)
      qed
    qed
  qed
qed

lemma deleteMetadata_frame:
  "remote (snd (deleteMetadata this w)) = remote w \<and>
   backupSync (snd (deleteMetadata this w)) = backupSync w \<and>
   (\<exists>l. log (snd (deleteMetadata this w)) = log w @ l \<and> fs_events l)"
  unfolding deleteMetadata_def by (rule dirs_frame)


lemma deleteMetadata_frameD:
  "deleteMetadata this w = (r, w') \<Longrightarrow>
     remote w' = remote w \<and> backupSync w' = backupSync w \<and>
     (\<exists>l. log w' = log w @ l \<and> fs_events l)"
  using deleteMetadata_frame [of this w] by simp

lemma fs_callD:
  "fs_call ev op w = (r, w') \<Longrightarrow>
     r = fst (op (files w)) \<and> files w' = snd (op (files w)) \<and> remote w' = remote w \<and>
     backupSync w' = backupSync w \<and> log w' = log w @ [ev]"
  by (auto simp: fs_call_def split: prod.splits)

lemma elements_part001_frame:
  "fst (deleteMetadata_elements_part001 req d xs w) = Inr () \<and>
   remote (snd (deleteMetadata_elements_part001 req d xs w)) = remote w \<and>
   backupSync (snd (deleteMetadata_elements_part001 req d xs w)) = backupSync w \<and>
   (\<exists>l. log (snd (deleteMetadata_elements_part001 req d xs w)) = log w @ l \<and> fs_events l)"
proof (induction xs arbitrary: w)
  case Nil
  show ?case by (simp add: fs_events_simps)
next
  case (Cons x xs)
  show ?case
  proof (cases "x \<in> set req")
    case True
    then show ?thesis using Cons.IH [of w] by simp
  next
    case False
    show ?thesis
    proof (cases "fs_lstat (path_join d x) (files w)")
      case (Inl e)
      then show ?thesis using False Cons.IH [of w] by simp
    next
      case (Inr stats)
      let ?w1 = "if stats = Dir
                 then snd (catch_ignore (fs_call (FsRm (path_join d x)) (fs_rm (path_join d x)) w))
                 else snd (catch_ignore (fs_call (FsUnlink (path_join d x)) (fs_unlink (path_join d x)) w))"
      have eq: "deleteMetadata_elements_part001 req d (x # xs) w =
                deleteMetadata_elements_part001 req d xs ?w1"
        using False Inr by (simp add: Let_def)
      obtain l where l: "log (snd (deleteMetadata_elements_part001 req d xs ?w1)) = log ?w1 @ l"
          "fs_events l"
        using Cons.IH [of ?w1] by blast
      have "\<exists>m. log ?w1 = log w @ m \<and> fs_events m"
        by (simp add: catch_ignore_simps fs_call_simps fs_events_simps)
      then obtain m where m: "log ?w1 = log w @ m" "fs_events m" by blast
      have "log (snd (deleteMetadata_elements_part001 req d (x # xs) w)) = log w @ (m @ l)"
        using eq l m by simp
      moreover have "fs_events (m @ l)" using l m by (simp add: fs_events_simps)
      moreover have "remote (snd (deleteMetadata_elements_part001 req d (x # xs) w)) = remote w"
        using eq Cons.IH [of ?w1] by (simp add: catch_ignore_simps fs_call_simps)
      moreover have "backupSync (snd (deleteMetadata_elements_part001 req d (x # xs) w)) = backupSync w"
        using eq Cons.IH [of ?w1] by (simp add: catch_ignore_simps fs_call_simps)
      moreover have "fst (deleteMetadata_elements_part001 req d (x # xs) w) = Inr ()"
        using eq Cons.IH [of ?w1] by simp
      ultimately show ?thesis by blast
    qed
  qed
qed

lemma dirs_part001_frame:
  "fst (deleteMetadata_dirs_part001 req ds w) = Inr () \<and>
   remote (snd (deleteMetadata_dirs_part001 req ds w)) = remote w \<and>
   backupSync (snd (deleteMetadata_dirs_part001 req ds w)) = backupSync w \<and>
   (\<exists>l. log (snd (deleteMetadata_dirs_part001 req ds w)) = log w @ l \<and> fs_events l)"
proof (induction ds arbitrary: w)
  case Nil
  show ?case by (simp add: fs_events_simps)
next
  case (Cons d ds)
  show ?case
  proof (cases "isValidPath d w")
    case False
    then show ?thesis using Cons.IH [of w] by simp
  next
    case True
    let ?names = "case fs_readdir d (files w) of Inl e \<Rightarrow> [] | Inr names \<Rightarrow> names"
    obtain r w1 where e: "deleteMetadata_elements_part001 req d ?names w = (r, w1)"
      by (cases "deleteMetadata_elements_part001 req d ?names w")
    have f1: "r = Inr ()" "remote w1 = remote w" "backupSync w1 = backupSync w"
      and "\<exists>l. log w1 = log w @ l \<and> fs_events l"
      using elements_part001_frame [of req d ?names w] e by simp_all
    then obtain l where l: "log w1 = log w @ l" "fs_events l" by blast
    obtain m where m: "log (snd (deleteMetadata_dirs_part001 req ds w1)) = log w1 @ m" "fs_events m"
      using Cons.IH [of w1] by blast
    have eq: "deleteMetadata_dirs_part001 req (d # ds) w = deleteMetadata_dirs_part001 req ds w1"
      using True e f1 by (simp add: Let_def)
    have "log (snd (deleteMetadata_dirs_part001 req (d # ds) w)) = log w @ (l @ m)"
      using eq l m by simp
    moreover have "fs_events (l @ m)" using l m by (simp add: fs_events_simps)
    ultimately show ?thesis using eq Cons.IH [of w1] f1 by auto
  qed
qed

lemma deleteMetadata_part001_frameD:
  "deleteMetadata_part001 this w = (r, w') \<Longrightarrow>
     r = Inr () \<and> remote w' = remote w \<and> backupSync w' = backupSync w \<and>
     (\<exists>l. log w' = log w @ l \<and> fs_events l)"
  using dirs_part001_frame [of "requiredDirs this" _ w] unfolding deleteMetadata_part001_def
  by (metis fst_conv snd_conv)

section \<open>The metadata filter on a missing directory\<close>

text \<open>
  Claim C5, on the code. In \<open>src/authStrategies/RemoteAuth.js\<close> the listing of each
  directory is awaited without a guard: when the staging directory is missing,
  \<open>deleteMetadata\<close> rejects with the error of \<open>readdir\<close> and changes nothing, and when
  its \<open>Default\<close> subdirectory is missing it rejects as well. The \<open>deleteMetadata\<close> of the
  second copy checks each directory first and never rejects.
\<close>

theorem C5_deleteMetadata_missing_directory_rejects:
  "(fs_lookup (files w) (tempDir this) = None \<longrightarrow>
      deleteMetadata this w = (Inl (ENOENT (tempDir this)), w)) \<and>
   (fs_lookup (files w) (path_join (tempDir this) ''Default'') = None \<longrightarrow>
      isl (fst (deleteMetadata this w))) \<and>
   fst (deleteMetadata_part001 this w) = Inr ()"
proof (intro conjI impI)
  assume "fs_lookup (files w) (tempDir this) = None"
  then show "deleteMetadata this w = (Inl (ENOENT (tempDir this)), w)"
    by (simp add: deleteMetadata_def fs_readdir_def)
next
  let ?t = "tempDir this"
  let ?d = "path_join ?t ''Default''"
  assume n: "fs_lookup (files w) ?d = None"
  show "isl (fst (deleteMetadata this w))"
  proof (cases "fs_readdir ?t (files w)")
    case (Inl e)
    then show ?thesis by (simp add: deleteMetadata_def)
  next
    case (Inr names)
    obtain r w1 where e: "deleteMetadata_elements (requiredDirs this) ?t names w = (r, w1)"
      by (cases "deleteMetadata_elements (requiredDirs this) ?t names w")
    have "fs_lookup (files w1) ?d = None"
      using elements_lookup [of ?t ?d "requiredDirs this" names w] e n by simp
    then have "fs_readdir ?d (files w1) = Inl (ENOENT ?d)"
      by (simp add: fs_readdir_def)
    then show ?thesis using Inr e by (cases r) (simp_all add: deleteMetadata_def)
  qed
next
  show "fst (deleteMetadata_part001 this w) = Inr ()"
    using deleteMetadata_part001_frameD [of this w] by (metis prod.collapse)
qed

text \<open>
  The theorem of C5 with no staging directory, and with a staging directory that has no
  \<open>Default\<close> inside, as the copy of a freshly created working directory leaves it.
\<close>

theorem C5_deleteMetadata_missing_directory_witness:
  "deleteMetadata this_x (world_of [] [] False)
     = (Inl (ENOENT ''/data/wwebjs_temp_session_x''), world_of [] [] False) \<and>
   fst (deleteMetadata this_x (world_of [(''/data/wwebjs_temp_session_x'', Dir)] [] False))
     = Inl (ENOENT ''/data/wwebjs_temp_session_x/Default'') \<and>
   fst (deleteMetadata_part001 this_x (world_of [(''/data/wwebjs_temp_session_x'', Dir)] [] False))
     = Inr ()"
proof -
  have a: "fs_lookup (files (world_of [] [] False)) (tempDir this_x) = None"
    by (simp add: world_of_def fs_lookup_def)
  have b: "fst (deleteMetadata this_x (world_of [(''/data/wwebjs_temp_session_x'', Dir)] [] False))
     = Inl (ENOENT ''/data/wwebjs_temp_session_x/Default'')"
    by (simp add: deleteMetadata_def this_x_def world_of_def fs_readdir_def fs_lookup_def
          path_join_def under_def)
  from C5_deleteMetadata_missing_directory_rejects [of "world_of [] [] False" this_x]
       C5_deleteMetadata_missing_directory_rejects
         [of "world_of [(''/data/wwebjs_temp_session_x'', Dir)] [] False" this_x] a b
  show ?thesis by (simp add: this_x_def)
qed

section \<open>One backup cycle\<close>

lemma zip_neq_partial: "sn @ ''.zip'' \<noteq> sn @ ''.zip.partial''"
  by simp

lemma deleteLeftoverPartial_frame:
  "remote (deleteLeftoverPartial p w) = remote w"
  "backupSync (deleteLeftoverPartial p w) = backupSync w"
  "log (deleteLeftoverPartial p w) = log w @ (if isValidPath p w then [FsUnlink p] else [])"
  "q \<noteq> p \<Longrightarrow> fs_lookup (files (deleteLeftoverPartial p w)) q = fs_lookup (files w) q"
  by (simp_all add: deleteLeftoverPartial_def catch_ignore_simps fs_call_simps fs_unlink_lookup)

lemma deleteLeftoverPartial_not_Dir:
  "fs_lookup (files w) p \<noteq> Some Dir \<Longrightarrow> fs_lookup (files (deleteLeftoverPartial p w)) p \<noteq> Some Dir"
  by (simp add: deleteLeftoverPartial_def catch_ignore_simps fs_call_simps fs_unlink_lookup)



lemma fs_copy_lookup_outside:
  "q \<noteq> dst \<Longrightarrow> \<not> under dst q \<Longrightarrow> fs_lookup (snd (fs_copy src dst f)) q = fs_lookup f q"
proof -
  assume a: "q \<noteq> dst" "\<not> under dst q"
  then have "q \<notin> fst ` set (fs_tree_at src dst f)"
    using tree_at_keys [of q src dst f] by blast
  then have "fs_lookup (fs_write_all (fs_tree_at src dst f) f) q = fs_lookup f q"
    by (rule lookup_write_all)
  then show ?thesis using a
    by (auto simp: fs_copy_def lookup_write split: option.splits node.splits)
qed

lemma staging_frame:
  assumes "compressSession_staging this w = (r, w')"
  shows "remote w' = remote w \<and> backupSync w' = backupSync w \<and>
     (\<exists>l. log w' = log w @ FsCreateWriteStream (sessionName this @ ''.zip.partial'') # l \<and>
          fs_events l)"
proof -
  let ?p = "sessionName this @ ''.zip.partial''"
  obtain r1 w1 where c1: "fs_call (FsCreateWriteStream ?p) (fs_createWriteStream ?p) w = (r1, w1)"
    by (cases "fs_call (FsCreateWriteStream ?p) (fs_createWriteStream ?p) w")
  note f1 = fs_callD [OF c1]
  show ?thesis
  proof (cases r1)
    case (Inl e)
    then have "w' = w1" using assms c1 by (simp add: compressSession_staging_def Let_def)
    then show ?thesis using f1 by (simp add: fs_events_simps)
  next
    case (Inr u)
    let ?w2 = "snd (catch_ignore (fs_call (FsCopy (userDataDir this) (tempDir this))
                            (fs_copy (userDataDir this) (tempDir this)) w1))"
    have f2: "remote ?w2 = remote w" "backupSync ?w2 = backupSync w"
      "log ?w2 = log w @ FsCreateWriteStream ?p # [FsCopy (userDataDir this) (tempDir this)]"
      using f1 by (simp_all add: catch_ignore_simps fs_call_simps)
    obtain r3 w3 where c3: "deleteMetadata this ?w2 = (r3, w3)"
      by (cases "deleteMetadata this ?w2")
    from deleteMetadata_frameD [OF c3] f2 obtain l where
      f3: "remote w3 = remote w" "backupSync w3 = backupSync w"
          "log w3 = log w @ FsCreateWriteStream ?p # (FsCopy (userDataDir this) (tempDir this) # l)"
          "fs_events l"
      by auto
    have e3: "fs_events (FsCopy (userDataDir this) (tempDir this) # l)"
      using f3(4) by (simp add: fs_events_def)
    have "w' = w3" using assms c1 Inr c3
      by (cases r3) (simp_all add: compressSession_staging_def Let_def)
    then show ?thesis using f3 e3 by blast
  qed
qed

lemma staging_lookup_outside:
  assumes "compressSession_staging this w = (r, w')"
    and "q \<noteq> sessionName this @ ''.zip.partial''" "q \<noteq> tempDir this" "\<not> under (tempDir this) q"
  shows "fs_lookup (files w') q = fs_lookup (files w) q"
proof -
  let ?p = "sessionName this @ ''.zip.partial''"
  obtain r1 w1 where c1: "fs_call (FsCreateWriteStream ?p) (fs_createWriteStream ?p) w = (r1, w1)"
    by (cases "fs_call (FsCreateWriteStream ?p) (fs_createWriteStream ?p) w")
  have z1: "fs_lookup (files w1) q = fs_lookup (files w) q"
    using fs_callD [OF c1] assms(2)
    by (auto simp: fs_createWriteStream_def lookup_write split: option.splits node.splits)
  show ?thesis
  proof (cases r1)
    case (Inl e)
    then have "w' = w1" using assms(1) c1 by (simp add: compressSession_staging_def Let_def)
    then show ?thesis using z1 by simp
  next
    case (Inr u)
    let ?w2 = "snd (catch_ignore (fs_call (FsCopy (userDataDir this) (tempDir this))
                            (fs_copy (userDataDir this) (tempDir this)) w1))"
    have z2: "fs_lookup (files ?w2) q = fs_lookup (files w) q"
      using z1 assms(3,4) by (simp add: catch_ignore_simps fs_call_simps fs_copy_lookup_outside)
    obtain r3 w3 where c3: "deleteMetadata this ?w2 = (r3, w3)"
      by (cases "deleteMetadata this ?w2")
    have z3: "fs_lookup (files w3) q = fs_lookup (files w) q"
      using deleteMetadata_lookup_outside [OF assms(4), of ?w2] c3 z2 by simp
    have "w' = w3" using assms(1) c1 Inr c3
      by (cases r3) (simp_all add: compressSession_staging_def Let_def)
    then show ?thesis using z3 by simp
  qed
qed

lemma staging_settles:
  "fs_lookup (files w) (sessionName this @ ''.zip.partial'') \<noteq> Some Dir \<Longrightarrow>
     fst (compressSession_staging this w) \<noteq> Unsettled"
  by (auto simp: compressSession_staging_def Let_def fs_call_def fs_createWriteStream_def
        split: prod.splits sum.splits option.splits node.splits)

lemma promise_frame:
  assumes "compressSession_promise E this w = (r, w')"
  shows "remote w' = remote w \<and> backupSync w' = backupSync w \<and>
         (\<exists>l. log w' = log w @ l \<and> fs_events l) \<and> r \<noteq> Unsettled"
  using assms
  by (auto simp: compressSession_promise_def Let_def fs_events_simps
        split: sum.splits prod.splits dest!: fs_callD)

lemma fs_rename_ok:
  "fs_rename a b f = (Inr u, f') \<Longrightarrow> fs_lookup f a = Some (File c) \<Longrightarrow> a \<noteq> b \<Longrightarrow>
     fs_lookup f' b = Some (File c) \<and> fs_lookup f' a = None"
  by (auto simp: fs_rename_def lookup_write lookup_remove split: option.splits node.splits)

lemma promise_Fulfilled:
  assumes "compressSession_promise E this w = (Fulfilled, w')"
  shows "(\<exists>c. fs_lookup (files w') (sessionName this @ ''.zip'') = Some (File c)) \<and>
         fs_lookup (files w') (sessionName this @ ''.zip.partial'') = None"
proof -
  let ?p = "sessionName this @ ''.zip.partial''"
  let ?z = "sessionName this @ ''.zip''"
  from assms obtain bytes u where
    "fs_call (FsRename ?p ?z) (fs_rename ?p ?z)
       (w\<lparr>files := fs_write ?p (File bytes) (files w)\<rparr>) = (Inr u, w')"
    by (auto simp: compressSession_promise_def Let_def split: prod.splits sum.splits)
  from fs_callD [OF this]
  have "fst (fs_rename ?p ?z (fs_write ?p (File bytes) (files w))) = Inr u"
       "snd (fs_rename ?p ?z (fs_write ?p (File bytes) (files w))) = files w'"
    by simp_all
  then have "fs_rename ?p ?z (fs_write ?p (File bytes) (files w)) = (Inr u, files w')"
    by (simp add: prod_eq_iff)
  from fs_rename_ok [OF this, of bytes] show ?thesis by (simp add: lookup_write)
qed

lemma compressSession_split:
  assumes "compressSession E this w = (r, w')"
  shows "(r \<noteq> Fulfilled \<and> compressSession_staging this w = (r, w')) \<or>
         (\<exists>w3. compressSession_staging this w = (Fulfilled, w3) \<and>
               compressSession_promise E this w3 = (r, w'))"
  using assms by (auto simp: compressSession_def split: prod.splits outcome.splits)

lemma compressSession_frame:
  assumes "compressSession E this w = (r, w')"
  shows "remote w' = remote w \<and> backupSync w' = backupSync w \<and>
     (\<exists>l. log w' = log w @ FsCreateWriteStream (sessionName this @ ''.zip.partial'') # l \<and>
          fs_events l)"
proof -
  let ?p = "sessionName this @ ''.zip.partial''"
  from compressSession_split [OF assms] show ?thesis
  proof
    assume "r \<noteq> Fulfilled \<and> compressSession_staging this w = (r, w')"
    then show ?thesis using staging_frame by blast
  next
    assume "\<exists>w3. compressSession_staging this w = (Fulfilled, w3) \<and>
               compressSession_promise E this w3 = (r, w')"
    then obtain w3 where s: "compressSession_staging this w = (Fulfilled, w3)"
      and p: "compressSession_promise E this w3 = (r, w')" by blast
    from staging_frame [OF s] obtain l where
      a: "remote w3 = remote w" "backupSync w3 = backupSync w"
         "log w3 = log w @ FsCreateWriteStream ?p # l" "fs_events l" by blast
    from promise_frame [OF p] obtain m where
      b: "remote w' = remote w3" "backupSync w' = backupSync w3" "log w' = log w3 @ m" "fs_events m"
      by blast
    have "log w' = log w @ FsCreateWriteStream ?p # (l @ m)" using a b by simp
    moreover have "fs_events (l @ m)" using a b by (simp add: fs_events_simps)
    ultimately show ?thesis using a b by auto
  qed
qed

lemma compressSession_ok_final:
  assumes "compressSession E this w = (Fulfilled, w')"
  shows "(\<exists>c. fs_lookup (files w') (sessionName this @ ''.zip'') = Some (File c)) \<and>
         fs_lookup (files w') (sessionName this @ ''.zip.partial'') = None"
  using compressSession_split [OF assms] promise_Fulfilled by blast

lemma compressSession_rename_blocked:
  assumes d: "fs_lookup (files w) (sessionName this @ ''.zip'') = Some Dir"
    and nd: "fs_lookup (files w) (sessionName this @ ''.zip.partial'') \<noteq> Some Dir"
    and o: "\<not> under (tempDir this) (sessionName this @ ''.zip'')"
           "tempDir this \<noteq> sessionName this @ ''.zip''"
  shows "\<exists>e. fst (compressSession E this w) = Rejected e"
proof -
  let ?p = "sessionName this @ ''.zip.partial''"
  let ?z = "sessionName this @ ''.zip''"
  obtain r3 w3 where s: "compressSession_staging this w = (r3, w3)"
    by (cases "compressSession_staging this w")
  have z3: "fs_lookup (files w3) ?z = Some Dir"
    using staging_lookup_outside [OF s, of ?z] d o by simp
  have ns: "r3 \<noteq> Unsettled" using staging_settles [OF nd] s by simp
  show ?thesis
  proof (cases r3)
    case (Rejected e)
    then show ?thesis using s by (simp add: compressSession_def)
  next
    case Unsettled
    then show ?thesis using ns by simp
  next
    case Fulfilled
    have "\<exists>e. fst (compressSession_promise E this w3) = Rejected e"
      using z3
      by (auto simp: compressSession_promise_def Let_def fs_call_def fs_rename_def lookup_write
            split: sum.splits prod.splits)
    then show ?thesis using s Fulfilled by (simp add: compressSession_def)
  qed
qed

lemma storeRemoteSession_unfinished:
  "compressSession E this (deleteLeftoverPartial (sessionName this @ ''.zip.partial'') w) = (r, w2)
   \<Longrightarrow> r \<noteq> Fulfilled \<Longrightarrow> storeRemoteSession E this opts w = (r, w2)"
  by (cases r) (simp_all add: storeRemoteSession_def Let_def)

lemma storeRemoteSession_fst:
  "fst (storeRemoteSession E this opts w) =
   fst (compressSession E this (deleteLeftoverPartial (sessionName this @ ''.zip.partial'') w))"
  by (auto simp: storeRemoteSession_def Let_def split: prod.splits outcome.splits)

lemma storeRemoteSession_Fulfilled:
  assumes "compressSession E this (deleteLeftoverPartial (sessionName this @ ''.zip.partial'') w)
             = (Fulfilled, w2)"
  shows "fst (storeRemoteSession E this opts w) = Fulfilled"
    and "backupSync (snd (storeRemoteSession E this opts w)) = backupSync w2"
    and "\<And>q. fs_lookup (files (snd (storeRemoteSession E this opts w))) q =
           (if q = tempDir this \<or> under (tempDir this) q then None else fs_lookup (files w2) q)"
    and "log (snd (storeRemoteSession E this opts w)) =
           log w2 @
           (case store_save (store this) (sessionName this) (sessionName this @ ''.zip'')
                   (files w2) (remote w2) of
              (Inl err, rem) \<Rightarrow> [StoreSave (sessionName this) (sessionName this @ ''.zip''), ConsoleError err]
            | (Inr v, rem) \<Rightarrow> [StoreSave (sessionName this) (sessionName this @ ''.zip'')])
           @ [FsRm (tempDir this)]
           @ (if opts = Some True then [Emit REMOTE_SESSION_SAVED] else [])"
    and "remote (snd (storeRemoteSession E this opts w)) =
           snd (store_save (store this) (sessionName this) (sessionName this @ ''.zip'')
                  (files w2) (remote w2))"
proof -
  obtain c where c: "fs_lookup (files w2) (sessionName this @ ''.zip'') = Some (File c)"
    using compressSession_ok_final [OF assms] by blast
  then have v: "isValidPath (sessionName this @ ''.zip'') w2"
    by (simp add: isValidPath_def fs_access_def)
  show "fst (storeRemoteSession E this opts w) = Fulfilled"
    using assms by (simp add: storeRemoteSession_def Let_def)
  show "backupSync (snd (storeRemoteSession E this opts w)) = backupSync w2"
    using assms v
    by (simp add: storeRemoteSession_def Let_def catch_ignore_simps fs_call_simps say_simps
          split: prod.splits sum.splits)
  show "\<And>q. fs_lookup (files (snd (storeRemoteSession E this opts w))) q =
           (if q = tempDir this \<or> under (tempDir this) q then None else fs_lookup (files w2) q)"
    using assms v
    by (simp add: storeRemoteSession_def Let_def catch_ignore_simps fs_call_simps say_simps
          fs_rm_lookup split: prod.splits sum.splits)
  show "log (snd (storeRemoteSession E this opts w)) =
           log w2 @
           (case store_save (store this) (sessionName this) (sessionName this @ ''.zip'')
                   (files w2) (remote w2) of
              (Inl err, rem) \<Rightarrow> [StoreSave (sessionName this) (sessionName this @ ''.zip''), ConsoleError err]
            | (Inr v, rem) \<Rightarrow> [StoreSave (sessionName this) (sessionName this @ ''.zip'')])
           @ [FsRm (tempDir this)]
           @ (if opts = Some True then [Emit REMOTE_SESSION_SAVED] else [])"
    using assms v
    by (simp add: storeRemoteSession_def Let_def catch_ignore_simps fs_call_simps say_simps
          split: prod.splits sum.splits)
  show "remote (snd (storeRemoteSession E this opts w)) =
           snd (store_save (store this) (sessionName this) (sessionName this @ ''.zip'')
                  (files w2) (remote w2))"
    using assms v
    by (simp add: storeRemoteSession_def Let_def catch_ignore_simps fs_call_simps say_simps
          split: prod.splits sum.splits)
qed

text \<open>The same facts for the backup cycle of the second copy.\<close>

lemma staging_part001_frame:
  assumes "compressSession_staging_part001 this w = (r, w')"
  shows "remote w' = remote w \<and> backupSync w' = backupSync w \<and>
     (\<exists>l. log w' = log w @ FsCreateWriteStream (sessionName this @ ''.zip.partial'') # l \<and>
          fs_events l)"
proof -
  let ?p = "sessionName this @ ''.zip.partial''"
  obtain r1 w1 where c1: "fs_call (FsCreateWriteStream ?p) (fs_createWriteStream ?p) w = (r1, w1)"
    by (cases "fs_call (FsCreateWriteStream ?p) (fs_createWriteStream ?p) w")
  note f1 = fs_callD [OF c1]
  show ?thesis
  proof (cases r1)
    case (Inl e)
    then have "w' = w1" using assms c1 by (simp add: compressSession_staging_part001_def Let_def)
    then show ?thesis using f1 by (simp add: fs_events_simps)
  next
    case (Inr u)
    let ?w2 = "snd (catch_ignore (fs_call (FsCopy (userDataDir this) (tempDir this))
                            (fs_copy (userDataDir this) (tempDir this)) w1))"
    have f2: "remote ?w2 = remote w" "backupSync ?w2 = backupSync w"
      "log ?w2 = log w @ FsCreateWriteStream ?p # [FsCopy (userDataDir this) (tempDir this)]"
      using f1 by (simp_all add: catch_ignore_simps fs_call_simps)
    obtain r3 w3 where c3: "deleteMetadata_part001 this ?w2 = (r3, w3)"
      by (cases "deleteMetadata_part001 this ?w2")
    from deleteMetadata_part001_frameD [OF c3] f2 obtain l where
      f3: "remote w3 = remote w" "backupSync w3 = backupSync w"
          "log w3 = log w @ FsCreateWriteStream ?p # (FsCopy (userDataDir this) (tempDir this) # l)"
          "fs_events l"
      by auto
    have e3: "fs_events (FsCopy (userDataDir this) (tempDir this) # l)"
      using f3(4) by (simp add: fs_events_def)
    have "w' = w3" using assms c1 Inr c3
      by (cases r3) (simp_all add: compressSession_staging_part001_def Let_def)
    then show ?thesis using f3 e3 by blast
  qed
qed

lemma compressSession_part001_split:
  assumes "compressSession_part001 E this w = (r, w')"
  shows "(r \<noteq> Fulfilled \<and> compressSession_staging_part001 this w = (r, w')) \<or>
         (\<exists>w3. compressSession_staging_part001 this w = (Fulfilled, w3) \<and>
               compressSession_promise E this w3 = (r, w'))"
  using assms by (auto simp: compressSession_part001_def split: prod.splits outcome.splits)

lemma compressSession_part001_frame:
  assumes "compressSession_part001 E this w = (r, w')"
  shows "remote w' = remote w \<and> backupSync w' = backupSync w \<and>
     (\<exists>l. log w' = log w @ FsCreateWriteStream (sessionName this @ ''.zip.partial'') # l \<and>
          fs_events l)"
proof -
  let ?p = "sessionName this @ ''.zip.partial''"
  from compressSession_part001_split [OF assms] show ?thesis
  proof
    assume "r \<noteq> Fulfilled \<and> compressSession_staging_part001 this w = (r, w')"
    then show ?thesis using staging_part001_frame by blast
  next
    assume "\<exists>w3. compressSession_staging_part001 this w = (Fulfilled, w3) \<and>
               compressSession_promise E this w3 = (r, w')"
    then obtain w3 where s: "compressSession_staging_part001 this w = (Fulfilled, w3)"
      and p: "compressSession_promise E this w3 = (r, w')" by blast
    from staging_part001_frame [OF s] obtain l where
      a: "remote w3 = remote w" "backupSync w3 = backupSync w"
         "log w3 = log w @ FsCreateWriteStream ?p # l" "fs_events l" by blast
    from promise_frame [OF p] obtain m where
      b: "remote w' = remote w3" "backupSync w' = backupSync w3" "log w' = log w3 @ m" "fs_events m"
      by blast
    have "log w' = log w @ FsCreateWriteStream ?p # (l @ m)" using a b by simp
    moreover have "fs_events (l @ m)" using a b by (simp add: fs_events_simps)
    ultimately show ?thesis using a b by auto
  qed
qed

lemma compressSession_part001_ok_final:
  assumes "compressSession_part001 E this w = (Fulfilled, w')"
  shows "(\<exists>c. fs_lookup (files w') (sessionName this @ ''.zip'') = Some (File c)) \<and>
         fs_lookup (files w') (sessionName this @ ''.zip.partial'') = None"
  using compressSession_part001_split [OF assms] promise_Fulfilled by blast



lemma storeRemoteSession_part001_Fulfilled:
  assumes "compressSession_part001 E this (deleteLeftoverPartial (sessionName this @ ''.zip.partial'') w)
             = (Fulfilled, w2)"
  shows "fst (storeRemoteSession_part001 E this opts w) = Fulfilled"
    and "backupSync (snd (storeRemoteSession_part001 E this opts w)) = backupSync w2"
    and "\<And>q. fs_lookup (files (snd (storeRemoteSession_part001 E this opts w))) q =
           (if q = tempDir this \<or> under (tempDir this) q then None else fs_lookup (files w2) q)"
    and "log (snd (storeRemoteSession_part001 E this opts w)) =
           log w2 @
           (case store_save (store this) (sessionName this) (sessionName this @ ''.zip'')
                   (files w2) (remote w2) of
              (Inl err, rem) \<Rightarrow> [StoreSave (sessionName this) (sessionName this @ ''.zip''), ConsoleError err]
            | (Inr v, rem) \<Rightarrow> [StoreSave (sessionName this) (sessionName this @ ''.zip'')])
           @ [FsRm (tempDir this)]
           @ (if opts = Some True then [Emit REMOTE_SESSION_SAVED] else [])"
    and "remote (snd (storeRemoteSession_part001 E this opts w)) =
           snd (store_save (store this) (sessionName this) (sessionName this @ ''.zip'')
                  (files w2) (remote w2))"
proof -
  obtain c where c: "fs_lookup (files w2) (sessionName this @ ''.zip'') = Some (File c)"
    using compressSession_part001_ok_final [OF assms] by blast
  then have v: "isValidPath (sessionName this @ ''.zip'') w2"
    by (simp add: isValidPath_def fs_access_def)
  show "fst (storeRemoteSession_part001 E this opts w) = Fulfilled"
    using assms by (simp add: storeRemoteSession_part001_def Let_def)
  show "backupSync (snd (storeRemoteSession_part001 E this opts w)) = backupSync w2"
    using assms v
    by (simp add: storeRemoteSession_part001_def Let_def catch_ignore_simps fs_call_simps say_simps
          split: prod.splits sum.splits)
  show "\<And>q. fs_lookup (files (snd (storeRemoteSession_part001 E this opts w))) q =
           (if q = tempDir this \<or> under (tempDir this) q then None else fs_lookup (files w2) q)"
    using assms v
    by (simp add: storeRemoteSession_part001_def Let_def catch_ignore_simps fs_call_simps say_simps
          fs_rm_lookup split: prod.splits sum.splits)
  show "log (snd (storeRemoteSession_part001 E this opts w)) =
           log w2 @
           (case store_save (store this) (sessionName this) (sessionName this @ ''.zip'')
                   (files w2) (remote w2) of
              (Inl err, rem) \<Rightarrow> [StoreSave (sessionName this) (sessionName this @ ''.zip''), ConsoleError err]
            | (Inr v, rem) \<Rightarrow> [StoreSave (sessionName this) (sessionName this @ ''.zip'')])
           @ [FsRm (tempDir this)]
           @ (if opts = Some True then [Emit REMOTE_SESSION_SAVED] else [])"
    using assms v
    by (simp add: storeRemoteSession_part001_def Let_def catch_ignore_simps fs_call_simps say_simps
          split: prod.splits sum.splits)
  show "remote (snd (storeRemoteSession_part001 E this opts w)) =
           snd (store_save (store this) (sessionName this) (sessionName this @ ''.zip'')
                  (files w2) (remote w2))"
    using assms v
    by (simp add: storeRemoteSession_part001_def Let_def catch_ignore_simps fs_call_simps say_simps
          split: prod.splits sum.splits)
qed

text \<open>
  The stand-in instance keeps its archives outside its staging directory, and the
  stand-in profile can be staged and archived.
\<close>

lemma this_x_place:
  "\<not> under (tempDir this_x) (sessionName this_x @ ''.zip'')"
  "tempDir this_x \<noteq> sessionName this_x @ ''.zip''"
  by (simp_all add: this_x_def under_def)

lemma profile_x_stages_any:
  "fst (compressSession_staging this_x
          (deleteLeftoverPartial (sessionName this_x @ ''.zip.partial'')
             \<lparr>files = profile_x, remote = r, log = l, backupSync = b\<rparr>)) = Fulfilled \<and>
   fs_lookup (files (snd (compressSession_staging this_x
          (deleteLeftoverPartial (sessionName this_x @ ''.zip.partial'')
             \<lparr>files = profile_x, remote = r, log = l, backupSync = b\<rparr>))))
     ''/data/wwebjs_temp_session_x/Default/IndexedDB/db'' = Some (File ''keys'')"
  by code_simp

lemma profile_x_builds_any:
  "fst (compressSession libs_ok this_x
          (deleteLeftoverPartial (sessionName this_x @ ''.zip.partial'')
             \<lparr>files = profile_x, remote = r, log = l, backupSync = b\<rparr>))
     = Fulfilled"
  by code_simp

lemma profile_x_builds:
  "fst (compressSession libs_ok this_x
          (deleteLeftoverPartial (sessionName this_x @ ''.zip.partial'') (world_of profile_x bs rej)))
     = Fulfilled"
  using profile_x_builds_any [of "\<lparr>blobs = bs, save_rejects = rej\<rparr>" "[]" None]
  by (simp add: world_of_def)

text \<open>
  Claim C3: \<open>storeRemoteSession\<close> awaits \<open>compressSession\<close> outside any \<open>try\<close> block.
  A cycle that is not fulfilled has not called \<open>store.save\<close> and has left the state of
  the remote store as it was. When the staging part is done and the archiver reports an
  error on the staging directory as it then is, the cycle rejects with that error and
  stops in that very world: nothing is uploaded, nothing is cleaned. When the archiver
  has written the bytes and the \<open>rename\<close> of the \<open>.partial\<close> file fails, the cycle
  rejects with the error of the \<open>rename\<close>. One way for the \<open>rename\<close> to fail is a
  directory at the final path: then every cycle whose write stream can be opened rejects.
\<close>

theorem C3_archive_build_failure_aborts_upload:
  assumes run: "storeRemoteSession E this opts w = (r, w')"
  shows
   "(r \<noteq> Fulfilled \<longrightarrow> remote w' = remote w \<and> saves (log w') = saves (log w)) \<and>
    (\<forall>w3 e.
        compressSession_staging this (deleteLeftoverPartial (sessionName this @ ''.zip.partial'') w)
          = (Fulfilled, w3) \<and>
        archiver_directory E (tempDir this) (files w3) = Inl e \<longrightarrow>
        r = Rejected e \<and> w' = w3) \<and>
    (\<forall>w3 bytes e f.
        compressSession_staging this (deleteLeftoverPartial (sessionName this @ ''.zip.partial'') w)
          = (Fulfilled, w3) \<and>
        archiver_directory E (tempDir this) (files w3) = Inr bytes \<and>
        fs_rename (sessionName this @ ''.zip.partial'') (sessionName this @ ''.zip'')
          (fs_write (sessionName this @ ''.zip.partial'') (File bytes) (files w3)) = (Inl e, f) \<longrightarrow>
        r = Rejected e \<and> files w' = f) \<and>
    (fs_lookup (files w) (sessionName this @ ''.zip'') = Some Dir \<and>
     fs_lookup (files w) (sessionName this @ ''.zip.partial'') \<noteq> Some Dir \<and>
     \<not> under (tempDir this) (sessionName this @ ''.zip'') \<and>
     tempDir this \<noteq> sessionName this @ ''.zip'' \<longrightarrow> (\<exists>e. r = Rejected e))"
proof (intro conjI impI allI)
  let ?p = "sessionName this @ ''.zip.partial''"
  let ?z = "sessionName this @ ''.zip''"
  let ?w1 = "deleteLeftoverPartial ?p w"
  have fst_eq: "r = fst (compressSession E this ?w1)"
    using storeRemoteSession_fst [of E this opts w] run by simp
  {
    assume nf: "r \<noteq> Fulfilled"
    obtain w2 where c: "compressSession E this ?w1 = (r, w2)"
      using fst_eq by (metis prod.collapse)
    then have w': "w' = w2" using storeRemoteSession_unfinished [OF c nf, of opts] run by simp
    from compressSession_frame [OF c] obtain l where
      f: "remote w2 = remote ?w1" "log w2 = log ?w1 @ FsCreateWriteStream ?p # l" "fs_events l"
      by blast
    have ev: "fs_events ((if isValidPath ?p w then [FsUnlink ?p] else []) @ FsCreateWriteStream ?p # l)"
      using f(3) by (simp add: fs_events_def)
    have "log w2 = log w @ ((if isValidPath ?p w then [FsUnlink ?p] else []) @ FsCreateWriteStream ?p # l)"
      using f(2) by (simp add: deleteLeftoverPartial_frame)
    then have "saves (log w2) = saves (log w)"
      using fs_events_counts(2) [OF ev, of "log w"] by simp
    then show "remote w' = remote w" and "saves (log w') = saves (log w)"
      using w' f(1) by (simp_all add: deleteLeftoverPartial_frame)
  }
  {
    fix w3 e
    assume h: "compressSession_staging this ?w1 = (Fulfilled, w3) \<and>
               archiver_directory E (tempDir this) (files w3) = Inl e"
    then have c: "compressSession E this ?w1 = (Rejected e, w3)"
      by (simp add: compressSession_def compressSession_promise_def Let_def)
    from storeRemoteSession_unfinished [OF c, of opts] run
    show "r = Rejected e" and "w' = w3" by simp_all
  }
  {
    fix w3 bytes e f
    assume h: "compressSession_staging this ?w1 = (Fulfilled, w3) \<and>
        archiver_directory E (tempDir this) (files w3) = Inr bytes \<and>
        fs_rename ?p ?z (fs_write ?p (File bytes) (files w3)) = (Inl e, f)"
    then have c: "compressSession E this ?w1 =
                    (Rejected e, w3\<lparr>files := f, log := log w3 @ [FsRename ?p ?z]\<rparr>)"
      by (simp add: compressSession_def compressSession_promise_def Let_def fs_call_def)
    from storeRemoteSession_unfinished [OF c, of opts] run
    show "r = Rejected e" and "files w' = f" by auto
  }
  {
    assume a: "fs_lookup (files w) ?z = Some Dir \<and> fs_lookup (files w) ?p \<noteq> Some Dir \<and>
               \<not> under (tempDir this) ?z \<and> tempDir this \<noteq> ?z"
    then have "fs_lookup (files ?w1) ?z = Some Dir" "fs_lookup (files ?w1) ?p \<noteq> Some Dir"
      by (simp_all add: deleteLeftoverPartial_frame deleteLeftoverPartial_not_Dir)
    then show "\<exists>e. r = Rejected e"
      using fst_eq a compressSession_rename_blocked [of ?w1 this E] by auto
  }
qed

text \<open>
  The theorem of C3 on a profile with a file the archiver cannot read, and on one where
  a directory sits at the path of the final archive.
\<close>

theorem C3_archive_build_failure_witness:
  "fst (storeRemoteSession libs_archiver_eacces this_x None (world_of profile_x [] False))
     = Rejected (ArchiverError ''EACCES'') \<and>
   remote (snd (storeRemoteSession libs_archiver_eacces this_x None (world_of profile_x [] False)))
     = \<lparr>blobs = [], save_rejects = False\<rparr> \<and>
   saves (log (snd (storeRemoteSession libs_archiver_eacces this_x None (world_of profile_x [] False))))
     = [] \<and>
   (\<exists>e. fst (storeRemoteSession libs_ok this_x None
                 (world_of ((''RemoteAuth-x.zip'', Dir) # profile_x) [] False)) = Rejected e)"
proof -
  let ?w = "world_of profile_x [] False"
  let ?v = "world_of ((''RemoteAuth-x.zip'', Dir) # profile_x) [] False"
  let ?s = "compressSession_staging this_x
              (deleteLeftoverPartial (sessionName this_x @ ''.zip.partial'') ?w)"
  have wr: "?w = \<lparr>files = profile_x, remote = \<lparr>blobs = [], save_rejects = False\<rparr>, log = [],
                   backupSync = None\<rparr>"
    by (simp add: world_of_def)
  have st: "?s = (Fulfilled, snd ?s)"
    using profile_x_stages_any [of "\<lparr>blobs = [], save_rejects = False\<rparr>" "[]" None]
    unfolding wr by (simp add: prod_eq_iff)
  have ar: "archiver_directory libs_archiver_eacces (tempDir this_x) (files (snd ?s))
              = Inl (ArchiverError ''EACCES'')"
    using profile_x_stages_any [of "\<lparr>blobs = [], save_rejects = False\<rparr>" "[]" None]
    unfolding wr by (simp add: libs_archiver_eacces_def this_x_def)
  have b: "fs_lookup (files ?v) (sessionName this_x @ ''.zip'') = Some Dir \<and>
           fs_lookup (files ?v) (sessionName this_x @ ''.zip.partial'') \<noteq> Some Dir \<and>
           \<not> under (tempDir this_x) (sessionName this_x @ ''.zip'') \<and>
           tempDir this_x \<noteq> sessionName this_x @ ''.zip''"
    by (simp add: world_of_def this_x_def profile_x_def fs_lookup_def under_def)
  have w: "remote ?w = \<lparr>blobs = [], save_rejects = False\<rparr>" "saves (log ?w) = []"
    by (simp_all add: world_of_def saves_def)
  note T = C3_archive_build_failure_aborts_upload
             [OF surjective_pairing, of libs_archiver_eacces this_x None ?w]
  from T have "fst (storeRemoteSession libs_archiver_eacces this_x None ?w)
                 = Rejected (ArchiverError ''EACCES'')"
    using st ar by blast
  moreover from this T w
  have "remote (snd (storeRemoteSession libs_archiver_eacces this_x None ?w))
          = \<lparr>blobs = [], save_rejects = False\<rparr>"
       "saves (log (snd (storeRemoteSession libs_archiver_eacces this_x None ?w))) = []"
    by simp_all
  moreover from C3_archive_build_failure_aborts_upload
             [OF surjective_pairing, of libs_ok this_x None ?v] b
  have "\<exists>e. fst (storeRemoteSession libs_ok this_x None ?v) = Rejected e" by blast
  ultimately show ?thesis by simp
qed

text \<open>
  Claim C6: when the archive was built and \<open>store.save\<close> rejects, the \<open>catch\<close> block
  writes the error to the console and the cycle goes on to its end: \<open>storeRemoteSession\<close>
  is fulfilled, the console has gained exactly that error, and the final archive that
  \<open>compressSession\<close> produced is still in place with the same content. It holds for
  both copies of the class, for an instance whose archive path is not inside its staging
  directory.
\<close>

theorem C6_upload_failure_is_caught:
  assumes place: "\<not> under (tempDir this) (sessionName this @ ''.zip'')"
                 "tempDir this \<noteq> sessionName this @ ''.zip''"
  shows
   "(\<forall>w2 err rem.
       compressSession E this (deleteLeftoverPartial (sessionName this @ ''.zip.partial'') w)
         = (Fulfilled, w2) \<and>
       store_save (store this) (sessionName this) (sessionName this @ ''.zip'') (files w2) (remote w2)
         = (Inl err, rem) \<longrightarrow>
       fst (storeRemoteSession E this opts w) = Fulfilled \<and>
       complaints (log (snd (storeRemoteSession E this opts w))) = complaints (log w) @ [ConsoleError err] \<and>
       (\<exists>c. fs_lookup (files w2) (sessionName this @ ''.zip'') = Some (File c) \<and>
            fs_lookup (files (snd (storeRemoteSession E this opts w))) (sessionName this @ ''.zip'')
              = Some (File c))) \<and>
    (\<forall>w2 err rem.
       compressSession_part001 E this (deleteLeftoverPartial (sessionName this @ ''.zip.partial'') w)
         = (Fulfilled, w2) \<and>
       store_save (store this) (sessionName this) (sessionName this @ ''.zip'') (files w2) (remote w2)
         = (Inl err, rem) \<longrightarrow>
       fst (storeRemoteSession_part001 E this opts w) = Fulfilled \<and>
       complaints (log (snd (storeRemoteSession_part001 E this opts w)))
         = complaints (log w) @ [ConsoleError err] \<and>
       (\<exists>c. fs_lookup (files w2) (sessionName this @ ''.zip'') = Some (File c) \<and>
            fs_lookup (files (snd (storeRemoteSession_part001 E this opts w))) (sessionName this @ ''.zip'')
              = Some (File c)))"
proof (intro conjI allI impI)
  let ?p = "sessionName this @ ''.zip.partial''"
  let ?z = "sessionName this @ ''.zip''"
  let ?w1 = "deleteLeftoverPartial ?p w"
  have pre: "complaints (log w2) = complaints (log w)"
    if "\<exists>l. log w2 = log ?w1 @ FsCreateWriteStream ?p # l \<and> fs_events l" for w2 :: "'a world"
  proof -
    from that obtain l where l: "log w2 = log ?w1 @ FsCreateWriteStream ?p # l" "fs_events l"
      by blast
    have ev: "fs_events ((if isValidPath ?p w then [FsUnlink ?p] else []) @ FsCreateWriteStream ?p # l)"
      using l(2) by (simp add: fs_events_def)
    have "log w2 = log w @ ((if isValidPath ?p w then [FsUnlink ?p] else []) @ FsCreateWriteStream ?p # l)"
      using l(1) by (simp add: deleteLeftoverPartial_frame)
    then show ?thesis using fs_events_counts(3) [OF ev, of "log w"] by simp
  qed
  {
    fix w2 err rem
    assume h: "compressSession E this ?w1 = (Fulfilled, w2) \<and>
       store_save (store this) (sessionName this) ?z (files w2) (remote w2) = (Inl err, rem)"
    then have c: "compressSession E this ?w1 = (Fulfilled, w2)" by simp
    from compressSession_frame [OF c] have cw: "complaints (log w2) = complaints (log w)"
      using pre by blast
    show "fst (storeRemoteSession E this opts w) = Fulfilled"
      by (rule storeRemoteSession_Fulfilled(1) [OF c])
    show "complaints (log (snd (storeRemoteSession E this opts w))) = complaints (log w) @ [ConsoleError err]"
      using storeRemoteSession_Fulfilled(4) [OF c, of opts] h cw by (simp add: complaints_def)
    obtain c' where "fs_lookup (files w2) ?z = Some (File c')"
      using compressSession_ok_final [OF c] by blast
    then show "\<exists>c. fs_lookup (files w2) ?z = Some (File c) \<and>
            fs_lookup (files (snd (storeRemoteSession E this opts w))) ?z = Some (File c)"
      using storeRemoteSession_Fulfilled(3) [OF c, of opts ?z] place by simp
  }
  {
    fix w2 err rem
    assume h: "compressSession_part001 E this ?w1 = (Fulfilled, w2) \<and>
       store_save (store this) (sessionName this) ?z (files w2) (remote w2) = (Inl err, rem)"
    then have c: "compressSession_part001 E this ?w1 = (Fulfilled, w2)" by simp
    from compressSession_part001_frame [OF c] have cw: "complaints (log w2) = complaints (log w)"
      using pre by blast
    show "fst (storeRemoteSession_part001 E this opts w) = Fulfilled"
      by (rule storeRemoteSession_part001_Fulfilled(1) [OF c])
    show "complaints (log (snd (storeRemoteSession_part001 E this opts w)))
            = complaints (log w) @ [ConsoleError err]"
      using storeRemoteSession_part001_Fulfilled(4) [OF c, of opts] h cw by (simp add: complaints_def)
    obtain c' where "fs_lookup (files w2) ?z = Some (File c')"
      using compressSession_part001_ok_final [OF c] by blast
    then show "\<exists>c. fs_lookup (files w2) ?z = Some (File c) \<and>
            fs_lookup (files (snd (storeRemoteSession_part001 E this opts w))) ?z = Some (File c)"
      using storeRemoteSession_part001_Fulfilled(3) [OF c, of opts ?z] place by simp
  }
qed

text \<open>The theorem of C6 on a store whose \<open>save\<close> rejects.\<close>

theorem C6_upload_failure_witness:
  "fst (storeRemoteSession libs_ok this_x None (world_of profile_x [] True)) = Fulfilled \<and>
   complaints (log (snd (storeRemoteSession libs_ok this_x None (world_of profile_x [] True))))
     = [ConsoleError (StoreError ''save'')] \<and>
   (\<exists>c. fs_lookup (files (snd (storeRemoteSession libs_ok this_x None (world_of profile_x [] True))))
          ''RemoteAuth-x.zip'' = Some (File c))"
proof -
  let ?w = "world_of profile_x [] True"
  let ?w2 = "snd (compressSession libs_ok this_x
                    (deleteLeftoverPartial (sessionName this_x @ ''.zip.partial'') ?w))"
  have c: "compressSession libs_ok this_x
             (deleteLeftoverPartial (sessionName this_x @ ''.zip.partial'') ?w) = (Fulfilled, ?w2)"
    using profile_x_builds [of "[]" True] by (simp add: prod_eq_iff)
  have "remote ?w2 = remote ?w"
    using compressSession_frame [OF c] by (simp add: deleteLeftoverPartial_frame)
  then have r: "store_save (store this_x) (sessionName this_x) (sessionName this_x @ ''.zip'')
                  (files ?w2) (remote ?w2) = (Inl (StoreError ''save''), remote ?w2)"
    by (simp add: this_x_def mem_store_def world_of_def)
  have l: "complaints (log ?w) = []" by (simp add: world_of_def complaints_def)
  note T = C6_upload_failure_is_caught [OF this_x_place, of libs_ok ?w None, THEN conjunct1,
             rule_format, OF conjI [OF c r]]
  from T l show ?thesis by (auto simp: this_x_def)
qed



section \<open>The staging directory after a cycle\<close>

text \<open>
  A cycle that is fulfilled, whether or not its copy or its upload failed, ends with the
  staging directory and everything inside it removed.
\<close>

lemma storeRemoteSession_cleans_up:
  assumes "fst (storeRemoteSession E this opts w) = Fulfilled"
  shows "fs_lookup (files (snd (storeRemoteSession E this opts w))) (tempDir this) = None"
    and "under (tempDir this) q \<Longrightarrow>
           fs_lookup (files (snd (storeRemoteSession E this opts w))) q = None"
proof -
  let ?w1 = "deleteLeftoverPartial (sessionName this @ ''.zip.partial'') w"
  from assms obtain w2 where c: "compressSession E this ?w1 = (Fulfilled, w2)"
    using storeRemoteSession_fst [of E this opts w] by (metis prod.collapse)
  show "fs_lookup (files (snd (storeRemoteSession E this opts w))) (tempDir this) = None"
    using storeRemoteSession_Fulfilled(3) [OF c, of opts "tempDir this"] by simp
  show "under (tempDir this) q \<Longrightarrow>
           fs_lookup (files (snd (storeRemoteSession E this opts w))) q = None"
    using storeRemoteSession_Fulfilled(3) [OF c, of opts q] by simp
qed

text \<open>
  Claim C4, on the code: the removal of the staging directory is the statement after the
  upload, outside any \<open>finally\<close>, so a cycle whose archive build rejects never reaches
  it. With an archiver whose stream fails, \<open>storeRemoteSession\<close> rejects and the staging
  directory is still there with the copied session data inside.
\<close>

theorem C4_staging_directory_survives_failed_build:
  "fst (storeRemoteSession libs_archiver_error this_x None (world_of profile_x [] False))
     = Rejected (ArchiverError ''stream'') \<and>
   fs_lookup (files (snd (storeRemoteSession libs_archiver_error this_x None
                            (world_of profile_x [] False))))
     ''/data/wwebjs_temp_session_x'' = Some Dir \<and>
   fs_lookup (files (snd (storeRemoteSession libs_archiver_error this_x None
                            (world_of profile_x [] False))))
     ''/data/wwebjs_temp_session_x/Default/IndexedDB/db'' = Some (File ''keys'')"
  by code_simp

text \<open>The evaluation of C4 read off at the instance's own \<open>tempDir\<close>.\<close>

theorem C4_staging_directory_witness:
  "(\<exists>e. fst (storeRemoteSession libs_archiver_error this_x None (world_of profile_x [] False))
         = Rejected e) \<and>
   fs_lookup (files (snd (storeRemoteSession libs_archiver_error this_x None
                            (world_of profile_x [] False))))
     (tempDir this_x) \<noteq> None"
  using C4_staging_directory_survives_failed_build by (simp add: this_x_def)

section \<open>Restoring from an unreadable archive\<close>

text \<open>
  Claim C2, as the code has it. When the store reports the session, the fetch leaves a
  file at the archive path and the zip reader rejects it, \<open>extractRemoteSession\<close> is
  fulfilled: the error goes to the console and the archive is unlinked. Nothing else is
  done: the log ends with that \<open>unlink\<close> and holds no \<open>mkdir\<close>, and every path other
  than the archive, the working directory included, is as the failed extraction left it.
  Both copies of the class behave the same here.
\<close>

theorem C2_unreadable_archive_is_caught:
  assumes ex: "store_sessionExists (store this) (sessionName this) (remote w) = Inr True"
    and fetch: "store_extract (store this) (sessionName this) (sessionName this @ ''.zip'')
                  (remote w) (files w) = (Inr u, f1)"
    and there: "fs_lookup f1 (sessionName this @ ''.zip'') = Some (File c)"
    and bad: "AdmZip_extractAllTo E (sessionName this @ ''.zip'') (userDataDir this) f1 = (Inl err, f2)"
  shows
   "fst (extractRemoteSession E this w) = Inr () \<and>
    log (snd (extractRemoteSession E this w)) =
      log w @ [StoreSessionExists (sessionName this),
               StoreExtract (sessionName this) (sessionName this @ ''.zip''),
               ConsoleError err, FsUnlink (sessionName this @ ''.zip'')] \<and>
    (\<forall>c2. fs_lookup f2 (sessionName this @ ''.zip'') = Some (File c2) \<longrightarrow>
       fs_lookup (files (snd (extractRemoteSession E this w))) (sessionName this @ ''.zip'') = None) \<and>
    (\<forall>q. q \<noteq> sessionName this @ ''.zip'' \<longrightarrow>
       fs_lookup (files (snd (extractRemoteSession E this w))) q = fs_lookup f2 q) \<and>
    extractRemoteSession_part001 E this w = extractRemoteSession E this w"
proof -
  let ?z = "sessionName this @ ''.zip''"
  let ?w2 = "(say (StoreExtract (sessionName this) ?z) (say (StoreSessionExists (sessionName this)) w))
               \<lparr>files := f1\<rparr>"
  have v: "isValidPath ?z ?w2"
    using there by (simp add: isValidPath_def fs_access_def)
  have un: "unCompressSession E this ?z ?w2 = (Inl err, ?w2\<lparr>files := f2\<rparr>)"
    using bad by (simp add: unCompressSession_def)
  have un1: "unCompressSession_part001 E this ?z ?w2 = (Inl err, ?w2\<lparr>files := f2\<rparr>)"
    using bad by (simp add: unCompressSession_part001_def)
  have eq: "extractRemoteSession E this w =
            catch_ignore (fs_call (FsUnlink ?z) (fs_unlink ?z) (say (ConsoleError err) (?w2\<lparr>files := f2\<rparr>)))"
    using ex fetch v un by (simp add: extractRemoteSession_def Let_def say_simps)
  have eq1: "extractRemoteSession_part001 E this w =
            catch_ignore (fs_call (FsUnlink ?z) (fs_unlink ?z) (say (ConsoleError err) (?w2\<lparr>files := f2\<rparr>)))"
    using ex fetch v un1 by (simp add: extractRemoteSession_part001_def Let_def say_simps)
  show ?thesis
    unfolding eq1 eq
    by (simp add: catch_ignore_simps fs_call_simps say_simps fs_unlink_lookup)
qed

text \<open>
  The theorem of C2 on a store that holds garbage for the session, with a working
  directory left by an earlier run: the old content stays.
\<close>

theorem C2_unreadable_archive_witness:
  "fst (extractRemoteSession libs_ok this_x
          (world_of [(''/data/RemoteAuth-x'', Dir), (''/data/RemoteAuth-x/old'', File ''o'')]
             [(''RemoteAuth-x'', ''garbage'')] False)) = Inr () \<and>
   fs_lookup (files (snd (extractRemoteSession libs_ok this_x
          (world_of [(''/data/RemoteAuth-x'', Dir), (''/data/RemoteAuth-x/old'', File ''o'')]
             [(''RemoteAuth-x'', ''garbage'')] False)))) ''RemoteAuth-x.zip'' = None \<and>
   fs_lookup (files (snd (extractRemoteSession libs_ok this_x
          (world_of [(''/data/RemoteAuth-x'', Dir), (''/data/RemoteAuth-x/old'', File ''o'')]
             [(''RemoteAuth-x'', ''garbage'')] False)))) ''/data/RemoteAuth-x/old'' = Some (File ''o'')"
proof -
  let ?f = "[(''/data/RemoteAuth-x'', Dir), (''/data/RemoteAuth-x/old'', File ''o'')]"
  let ?w = "world_of ?f [(''RemoteAuth-x'', ''garbage'')] False"
  let ?f1 = "fs_write ''RemoteAuth-x.zip'' (File ''garbage'') ?f"
  have ex: "store_sessionExists (store this_x) (sessionName this_x) (remote ?w) = Inr True"
    by (simp add: this_x_def mem_store_def world_of_def)
  have fetch: "store_extract (store this_x) (sessionName this_x) (sessionName this_x @ ''.zip'')
                  (remote ?w) (files ?w) = (Inr (), ?f1)"
    by (simp add: this_x_def mem_store_def world_of_def)
  have there: "fs_lookup ?f1 (sessionName this_x @ ''.zip'') = Some (File ''garbage'')"
    by (simp add: this_x_def lookup_write)
  have bad: "AdmZip_extractAllTo libs_ok (sessionName this_x @ ''.zip'') (userDataDir this_x) ?f1
               = (Inl (InvalidZip ''RemoteAuth-x.zip''), ?f1)"
    by (simp add: this_x_def libs_ok_def lookup_write)
  have n: "sessionName this_x @ ''.zip'' = ''RemoteAuth-x.zip''" by (simp add: this_x_def)
  have o: "fs_lookup ?f1 ''/data/RemoteAuth-x/old'' = Some (File ''o'')"
    by (simp add: fs_write_def fs_lookup_def)
  from C2_unreadable_archive_is_caught [OF ex fetch there bad] there o
  show ?thesis unfolding n by simp
qed

text \<open>
  Claim C2 as stated fails in its last part. With no working directory on disk and
  garbage in the store, both copies are fulfilled, log the error and unlink the archive,
  and the file system is empty afterwards: the working directory does not exist. With no
  session in the store the same call creates it.
\<close>

theorem C2_counterexample:
  "extractRemoteSession libs_ok this_x (world_of [] [(''RemoteAuth-x'', ''garbage'')] False)
     = (Inr (),
        \<lparr>files = [],
         remote = \<lparr>blobs = [(''RemoteAuth-x'', ''garbage'')], save_rejects = False\<rparr>,
         log = [StoreSessionExists ''RemoteAuth-x'', StoreExtract ''RemoteAuth-x'' ''RemoteAuth-x.zip'',
                ConsoleError (InvalidZip ''RemoteAuth-x.zip''), FsUnlink ''RemoteAuth-x.zip''],
         backupSync = None\<rparr>) \<and>
   extractRemoteSession_part001 libs_ok this_x (world_of [] [(''RemoteAuth-x'', ''garbage'')] False)
     = (Inr (),
        \<lparr>files = [],
         remote = \<lparr>blobs = [(''RemoteAuth-x'', ''garbage'')], save_rejects = False\<rparr>,
         log = [StoreSessionExists ''RemoteAuth-x'', StoreExtract ''RemoteAuth-x'' ''RemoteAuth-x.zip'',
                ConsoleError (InvalidZip ''RemoteAuth-x.zip''), FsUnlink ''RemoteAuth-x.zip''],
         backupSync = None\<rparr>) \<and>
   fs_lookup [] (userDataDir this_x) = None \<and>
   files (snd (extractRemoteSession libs_ok this_x (world_of [] [] False)))
     = [(''/data/RemoteAuth-x'', Dir)]"
  by (simp add: extractRemoteSession_def extractRemoteSession_part001_def unCompressSession_def
        unCompressSession_part001_def this_x_def world_of_def mem_store_def libs_ok_def say_def
        fs_call_def catch_ignore_def isValidPath_def fs_access_def fs_lookup_def fs_write_def
        fs_unlink_def fs_remove_def fs_mkdir_def Let_def)

section \<open>The saved notification\<close>

lemma saved_count_simps:
  "saved_count [] = 0"
  "saved_count (a @ b) = saved_count a + saved_count b"
  "saved_count (ev # l) = (if ev = Emit REMOTE_SESSION_SAVED then 1 else 0) + saved_count l"
  by (simp_all add: saved_count_def)

lemma build_log:
  assumes "compressSession E this (deleteLeftoverPartial (sessionName this @ ''.zip.partial'') w)
             = (r, w2)"
  shows "\<exists>l. log w2 = log w @ l \<and> fs_events l"
proof -
  let ?p = "sessionName this @ ''.zip.partial''"
  from compressSession_frame [OF assms] obtain l where
    l: "log w2 = log (deleteLeftoverPartial ?p w) @ FsCreateWriteStream ?p # l" "fs_events l"
    by blast
  have ev: "fs_events ((if isValidPath ?p w then [FsUnlink ?p] else []) @ FsCreateWriteStream ?p # l)"
    using l(2) by (simp add: fs_events_def)
  have "log w2 = log w @ ((if isValidPath ?p w then [FsUnlink ?p] else []) @ FsCreateWriteStream ?p # l)"
    using l(1) by (simp add: deleteLeftoverPartial_frame)
  then show ?thesis using ev by blast
qed

lemma storeRemoteSession_saved:
  "saved_count (log (snd (storeRemoteSession E this opts w))) =
     saved_count (log w) +
     (if opts = Some True \<and> fst (storeRemoteSession E this opts w) = Fulfilled then 1 else 0)"
proof -
  let ?w1 = "deleteLeftoverPartial (sessionName this @ ''.zip.partial'') w"
  obtain r2 w2 where c: "compressSession E this ?w1 = (r2, w2)"
    by (cases "compressSession E this ?w1")
  from build_log [OF c] obtain l where "log w2 = log w @ l" "fs_events l" by blast
  then have s2: "saved_count (log w2) = saved_count (log w)"
    using fs_events_counts(1) [of l "log w"] by simp
  show ?thesis
  proof (cases "r2 = Fulfilled")
    case False
    then show ?thesis using storeRemoteSession_unfinished [OF c False, of opts] s2 by simp
  next
    case True
    then show ?thesis
      using storeRemoteSession_Fulfilled(1,4) [of E this w w2 opts] c s2
      by (simp add: saved_count_simps split: prod.splits sum.splits)
  qed
qed

lemma storeRemoteSession_backupSync:
  "backupSync (snd (storeRemoteSession E this opts w)) = backupSync w"
proof -
  let ?w1 = "deleteLeftoverPartial (sessionName this @ ''.zip.partial'') w"
  obtain r2 w2 where c: "compressSession E this ?w1 = (r2, w2)"
    by (cases "compressSession E this ?w1")
  have b: "backupSync w2 = backupSync w"
    using compressSession_frame [OF c] by (simp add: deleteLeftoverPartial_frame)
  show ?thesis
  proof (cases "r2 = Fulfilled")
    case False
    then show ?thesis using storeRemoteSession_unfinished [OF c False, of opts] b by simp
  next
    case True
    then show ?thesis using storeRemoteSession_Fulfilled(2) [of E this w w2 opts] c b by simp
  qed
qed

lemma tick_saved: "saved_count (log (backupSync_tick E this w)) = saved_count (log w)"
  using storeRemoteSession_saved [of E this None w]
  by (auto simp: backupSync_tick_def say_simps saved_count_simps
        split: option.splits prod.splits outcome.splits)

lemma destroy_saved: "saved_count (log (snd (destroy this w))) = saved_count (log w)"
  by (simp add: destroy_def say_simps saved_count_simps)

lemma logout_saved: "saved_count (log (snd (logout this w))) = saved_count (log w)"
  by (auto simp: logout_def disconnect_def deleteRemoteSession_def say_simps saved_count_simps
        catch_ignore_simps fs_call_simps Let_def split: prod.splits sum.splits bool.splits)

lemma perform_saved: "saved_count (log (perform this a w)) = saved_count (log w)"
  by (cases a) (simp_all add: tick_saved destroy_saved logout_saved)

lemma actions_saved: "saved_count (log (fold (perform this) acts w)) = saved_count (log w)"
  by (induction acts arbitrary: w) (simp_all add: perform_saved)

lemma afterAuthReady_saved:
  "saved_count (log (snd (afterAuthReady E this w))) =
     saved_count (log w) +
     (case store_sessionExists (store this) (sessionName this) (remote w) of
        Inl e \<Rightarrow> 0
      | Inr True \<Rightarrow> 0
      | Inr False \<Rightarrow>
          if fst (storeRemoteSession E this (Some True)
                    (say (Delay 60000) (say (StoreSessionExists (sessionName this)) w))) = Fulfilled
          then 1 else 0)"
  using storeRemoteSession_saved [of E this "Some True"
          "say (Delay 60000) (say (StoreSessionExists (sessionName this)) w)"]
  by (auto simp: afterAuthReady_def say_simps saved_count_simps Let_def
        split: prod.splits sum.splits bool.splits outcome.splits)

text \<open>
  Claim C1, as the code has it, for every execution that starts with \<open>afterAuthReady\<close>
  and goes on with any timer ticks, \<open>destroy\<close> and \<open>logout\<close>. Ticks, \<open>destroy\<close> and
  \<open>logout\<close> never emit the notification. The whole execution emits it at most once. It
  emits none when the store reports that the session exists, and none when the first
  backup is not fulfilled (the archive could not be built). It emits exactly one when the
  store reports no session and the first backup is fulfilled with nothing written to the
  console, that is, archive built and uploaded.
\<close>

theorem C1_saved_notification:
  "saved_count (log (fold (perform this) acts w)) = saved_count (log w) \<and>
   saved_count (log (run E this acts w)) \<le> saved_count (log w) + 1 \<and>
   (store_sessionExists (store this) (sessionName this) (remote w) = Inr True \<longrightarrow>
      saved_count (log (run E this acts w)) = saved_count (log w)) \<and>
   (store_sessionExists (store this) (sessionName this) (remote w) = Inr False \<and>
    fst (storeRemoteSession E this (Some True)
           (say (Delay 60000) (say (StoreSessionExists (sessionName this)) w))) \<noteq> Fulfilled \<longrightarrow>
      saved_count (log (run E this acts w)) = saved_count (log w)) \<and>
   (store_sessionExists (store this) (sessionName this) (remote w) = Inr False \<and>
    fst (storeRemoteSession E this (Some True)
           (say (Delay 60000) (say (StoreSessionExists (sessionName this)) w))) = Fulfilled \<and>
    complaints (log (snd (storeRemoteSession E this (Some True)
           (say (Delay 60000) (say (StoreSessionExists (sessionName this)) w))))) = complaints (log w)
    \<longrightarrow> saved_count (log (run E this acts w)) = saved_count (log w) + 1)"
proof -
  have r: "saved_count (log (run E this acts w)) = saved_count (log (snd (afterAuthReady E this w)))"
    by (simp add: run_def actions_saved)
  show ?thesis
    unfolding r afterAuthReady_saved
    by (auto simp: actions_saved split: sum.splits bool.splits)
qed

text \<open>A backup of the stand-in profile with working libraries and the in-memory store.\<close>

lemma profile_x_cycle:
  assumes "files w = profile_x"
  shows "fst (storeRemoteSession libs_ok this_x opts w) = Fulfilled"
    and "complaints (log (snd (storeRemoteSession libs_ok this_x opts w))) =
           complaints (log w) @
           (if save_rejects (remote w) then [ConsoleError (StoreError ''save'')] else [])"
    and "save_rejects (remote w) \<Longrightarrow>
           remote (snd (storeRemoteSession libs_ok this_x opts w)) = remote w"
proof -
  let ?w1 = "deleteLeftoverPartial (sessionName this_x @ ''.zip.partial'') w"
  let ?w2 = "snd (compressSession libs_ok this_x ?w1)"
  have w: "w = \<lparr>files = profile_x, remote = remote w, log = log w, backupSync = backupSync w\<rparr>"
    using assms by simp
  have "fst (compressSession libs_ok this_x ?w1) = Fulfilled"
    using profile_x_builds_any [of "remote w" "log w" "backupSync w"] w by simp
  then have c: "compressSession libs_ok this_x ?w1 = (Fulfilled, ?w2)"
    by (simp add: prod_eq_iff)
  show "fst (storeRemoteSession libs_ok this_x opts w) = Fulfilled"
    by (rule storeRemoteSession_Fulfilled(1) [OF c])
  from build_log [OF c] obtain l where "log ?w2 = log w @ l" "fs_events l" by blast
  then have c2: "complaints (log ?w2) = complaints (log w)"
    using fs_events_counts(3) [of l "log w"] by simp
  have r2: "remote ?w2 = remote w"
    using compressSession_frame [OF c] by (simp add: deleteLeftoverPartial_frame)
  obtain bytes where z: "fs_lookup (files ?w2) (sessionName this_x @ ''.zip'') = Some (File bytes)"
    using compressSession_ok_final [OF c] by blast
  have sv: "fst (store_save (store this_x) (sessionName this_x) (sessionName this_x @ ''.zip'')
                  (files ?w2) (remote ?w2)) =
            (if save_rejects (remote w) then Inl (StoreError ''save'') else Inr ())"
    using z r2 by (simp add: this_x_def mem_store_def)
  show "complaints (log (snd (storeRemoteSession libs_ok this_x opts w))) =
           complaints (log w) @
           (if save_rejects (remote w) then [ConsoleError (StoreError ''save'')] else [])"
    using storeRemoteSession_Fulfilled(4) [OF c, of opts] c2 sv
    by (auto simp: complaints_def split: prod.splits sum.splits)
  show "save_rejects (remote w) \<Longrightarrow>
           remote (snd (storeRemoteSession libs_ok this_x opts w)) = remote w"
    using storeRemoteSession_Fulfilled(5) [OF c, of opts] r2
    by (simp add: this_x_def mem_store_def)
qed

text \<open>
  The theorem of C1 on a fresh session whose first backup succeeds, followed by ticks and
  a \<open>destroy\<close>, and on a session that the store already holds.
\<close>

theorem C1_saved_notification_witness:
  "saved_count (log (run libs_ok this_x [Tick libs_ok, Destroy, Tick libs_ok]
                       (world_of profile_x [] False))) = 1 \<and>
   saved_count (log (run libs_ok this_x [Tick libs_ok, Logout]
                       (world_of profile_x [(''RemoteAuth-x'', ''PK'')] False))) = 0"
proof -
  let ?w = "world_of profile_x [] False"
  let ?v = "world_of profile_x [(''RemoteAuth-x'', ''PK'')] False"
  let ?d = "say (Delay 60000) (say (StoreSessionExists (sessionName this_x)) ?w)"
  have no: "store_sessionExists (store this_x) (sessionName this_x) (remote ?w) = Inr False"
    by (simp add: this_x_def mem_store_def world_of_def)
  have yes: "store_sessionExists (store this_x) (sessionName this_x) (remote ?v) = Inr True"
    by (simp add: this_x_def mem_store_def world_of_def)
  have nr: "\<not> save_rejects (remote ?d)" by (simp add: say_simps world_of_def)
  have f: "files ?d = profile_x" by (simp add: say_simps world_of_def)
  have ok: "fst (storeRemoteSession libs_ok this_x (Some True) ?d) = Fulfilled"
    by (rule profile_x_cycle(1) [OF f])
  have quiet: "complaints (log (snd (storeRemoteSession libs_ok this_x (Some True) ?d)))
                 = complaints (log ?w)"
    using profile_x_cycle(2) [OF f, of "Some True"] nr
    by (simp add: say_simps complaints_def)
  have l: "saved_count (log ?w) = 0" "saved_count (log ?v) = 0"
    by (simp_all add: world_of_def saved_count_def)
  from C1_saved_notification [of this_x "[Tick libs_ok, Destroy, Tick libs_ok]" ?w libs_ok]
       no ok quiet l
  have a: "saved_count (log (run libs_ok this_x [Tick libs_ok, Destroy, Tick libs_ok] ?w)) = 1"
    by simp
  from C1_saved_notification [of this_x "[Tick libs_ok, Logout]" ?v libs_ok] yes l
  have b: "saved_count (log (run libs_ok this_x [Tick libs_ok, Logout] ?v)) = 0"
    by simp
  from a b show ?thesis by simp
qed

text \<open>
  Claim C1 as stated fails: the store reports no session, the archiver's stream fails in
  the first backup, and no notification is emitted, neither by \<open>afterAuthReady\<close> nor
  later.
\<close>

theorem C1_counterexample:
  "store_sessionExists (store this_x) (sessionName this_x) (remote (world_of profile_x [] False))
     = Inr False \<and>
   saved_count (log (run libs_archiver_error this_x [Tick libs_ok, Tick libs_ok]
                       (world_of profile_x [] False))) = 0"
proof -
  let ?w = "world_of profile_x [] False"
  let ?d = "say (Delay 60000) (say (StoreSessionExists (sessionName this_x)) ?w)"
  have no: "store_sessionExists (store this_x) (sessionName this_x) (remote ?w) = Inr False"
    by (simp add: this_x_def mem_store_def world_of_def)
  have "fst (compressSession libs_archiver_error this_x
               (deleteLeftoverPartial (sessionName this_x @ ''.zip.partial'') ?d)) \<noteq> Fulfilled"
    by (auto simp: compressSession_def compressSession_promise_def libs_archiver_error_def
          split: prod.splits outcome.splits)
  then have rej: "fst (storeRemoteSession libs_archiver_error this_x (Some True) ?d) \<noteq> Fulfilled"
    using storeRemoteSession_fst [of libs_archiver_error this_x "Some True" ?d] by simp
  have "saved_count (log (run libs_archiver_error this_x [Tick libs_ok, Tick libs_ok] ?w)) =
        saved_count (log (snd (afterAuthReady libs_archiver_error this_x ?w)))"
    unfolding run_def by (rule actions_saved)
  also have "\<dots> = saved_count (log ?w)"
    using afterAuthReady_saved [of libs_archiver_error this_x ?w] no rej by simp
  also have "\<dots> = 0" by (simp add: world_of_def saved_count_def)
  finally show ?thesis using no by simp
qed

text \<open>
  What the theorem of C1 leaves open: a first backup whose upload is rejected. The cycle
  is fulfilled, the error is on the console, the store holds nothing, and the
  notification is emitted all the same.
\<close>

lemma saved_event_after_rejected_upload:
  "fst (storeRemoteSession libs_ok this_x (Some True) (world_of profile_x [] True)) = Fulfilled \<and>
   saved_count (log (snd (storeRemoteSession libs_ok this_x (Some True) (world_of profile_x [] True))))
     = 1 \<and>
   complaints (log (snd (storeRemoteSession libs_ok this_x (Some True) (world_of profile_x [] True))))
     = [ConsoleError (StoreError ''save'')] \<and>
   remote (snd (storeRemoteSession libs_ok this_x (Some True) (world_of profile_x [] True)))
     = \<lparr>blobs = [], save_rejects = True\<rparr>"
proof -
  let ?w = "world_of profile_x [] True"
  have f: "files ?w = profile_x" "save_rejects (remote ?w)" by (simp_all add: world_of_def)
  have l: "saved_count (log ?w) = 0" "complaints (log ?w) = []"
          "remote ?w = \<lparr>blobs = [], save_rejects = True\<rparr>"
    by (simp_all add: world_of_def saved_count_def complaints_def)
  show ?thesis
    using profile_x_cycle [OF f(1), of "Some True"] f(2) l
          storeRemoteSession_saved [of libs_ok this_x "Some True" ?w]
    by simp
qed

end
